theory Spec2Isabelle
  imports Main "HOL-Library.Sublist" "HOL-Library.Product_Lexorder"
begin

section \<open>Python values used by the analyzer\<close>

text \<open>
  The repository holds the structure extractor twice: once in the single file
  \<^verbatim>\<open>scripts/generator.py\<close> and once split into modules (\<^verbatim>\<open>src/code_analyzer.py\<close>,
  \<^verbatim>\<open>src/code_element.py\<close>, \<^verbatim>\<open>main_window.py\<close>). The method bodies of the two copies are
  the same text; the copies differ in the class \<^verbatim>\<open>CodeElement\<close> that is in scope.

  Text is a \<^typ>\<open>string\<close>; the character classes below are the ASCII part of Python's
  \<^verbatim>\<open>str.isspace\<close> and of the regular expression classes \<^verbatim>\<open>\s\<close> and \<^verbatim>\<open>\w\<close>.
  Exceptions are values of \<open>exn\<close>; a call that can raise returns \<open>exn + 'a\<close>.
\<close>

datatype exn = SyntaxError | TypeError | IndexError | AttributeError | OSError

definition is_space :: "char \<Rightarrow> bool" where
  "is_space c \<longleftrightarrow>
     c \<in> set [CHR 0x09, CHR 0x0A, CHR 0x0B, CHR 0x0C, CHR 0x0D,
               CHR 0x1C, CHR 0x1D, CHR 0x1E, CHR 0x1F, CHR 0x20]"

definition is_word :: "char \<Rightarrow> bool" where
  "is_word c \<longleftrightarrow>
     c \<in> set ''abcdefghijklmnopqrstuvwxyzABCDEFGHIJKLMNOPQRSTUVWXYZ0123456789_''"

text \<open>\<^verbatim>\<open>s.strip()\<close>, \<^verbatim>\<open>s.startswith(p)\<close>, \<^verbatim>\<open>s.endswith(p)\<close>, \<^verbatim>\<open>sub in s\<close>,
  \<^verbatim>\<open>sep.join(xs)\<close> and \<^verbatim>\<open>s.split('\n')\<close>.\<close>

definition strip :: "string \<Rightarrow> string" where
  "strip s = rev (dropWhile is_space (rev (dropWhile is_space s)))"

definition startswith :: "string \<Rightarrow> string \<Rightarrow> bool" where
  "startswith s p \<longleftrightarrow> prefix p s"

definition endswith :: "string \<Rightarrow> string \<Rightarrow> bool" where
  "endswith s p \<longleftrightarrow> suffix p s"

definition contains :: "string \<Rightarrow> string \<Rightarrow> bool" where
  "contains s sub \<longleftrightarrow> sublist sub s"

fun py_join :: "string \<Rightarrow> string list \<Rightarrow> string" where
  "py_join sep [] = []"
| "py_join sep [x] = x"
| "py_join sep (x # y # ys) = x @ sep @ py_join sep (y # ys)"

fun split_nl :: "string \<Rightarrow> string list" where
  "split_nl [] = [[]]"
| "split_nl (c # cs) =
     (if c = CHR 0x0A then [] # split_nl cs
      else (case split_nl cs of [] \<Rightarrow> [[c]] | l # ls \<Rightarrow> (c # l) # ls))"

text \<open>\<^verbatim>\<open>str.lower\<close> on texts of ASCII characters only. The splitter takes \<^verbatim>\<open>str.lower\<close> as a
  parameter; the files of the examples, whose class names are ASCII letters, pass this
  function for it.\<close>

definition lower_char :: "char \<Rightarrow> char" where
  "lower_char c =
     (case map_of (zip ''ABCDEFGHIJKLMNOPQRSTUVWXYZ'' ''abcdefghijklmnopqrstuvwxyz'') c of
        None \<Rightarrow> c | Some d \<Rightarrow> d)"

definition lower_ascii :: "string \<Rightarrow> string" where
  "lower_ascii s = map lower_char s"

section \<open>The syntax tree of the \<^verbatim>\<open>ast\<close> module\<close>

text \<open>
  Only the node classes the code tests with \<^verbatim>\<open>isinstance\<close> are told apart; every other
  node is \<open>Other\<close> with its child nodes in field order. The fields follow
  \<^verbatim>\<open>_fields\<close> of the node classes: a class definition has bases, keywords, body and
  decorator list; a function definition has its arguments node, body, decorator list and
  optional return annotation. The aliases of an import and the context of a name are
  nodes too, without children.
\<close>

record position =
  lineno :: int
  col_offset :: int
  end_lineno :: "int option"
  end_col_offset :: "int option"

datatype import_alias = Alias (alias_name: string) (asname: "string option")

datatype node =
    Module "node list"
  | ClassDef position string "node list" "node list" "node list" "node list"
  | FunctionDef position string node "node list" "node list" "node option"
  | Import position "import_alias list"
  | ImportFrom position "string option" "import_alias list"
  | Name position string
  | Other "node list"

fun iter_child_nodes :: "node \<Rightarrow> node list" where
  "iter_child_nodes (Module body) = body"
| "iter_child_nodes (ClassDef p ident bases keywords body decorator_list) =
     bases @ keywords @ body @ decorator_list"
| "iter_child_nodes (FunctionDef p ident args body decorator_list returns) =
     args # body @ decorator_list @ (case returns of None \<Rightarrow> [] | Some r \<Rightarrow> [r])"
| "iter_child_nodes (Import p names) = map (\<lambda>a. Other []) names"
| "iter_child_nodes (ImportFrom p m names) = map (\<lambda>a. Other []) names"
| "iter_child_nodes (Name p ident) = [Other []]"
| "iter_child_nodes (Other children) = children"

fun weight :: "node \<Rightarrow> nat" where
  "weight (Module body) = Suc (sum_list (map weight body))"
| "weight (ClassDef p ident bases keywords body decorator_list) =
     Suc (sum_list (map weight bases) + sum_list (map weight keywords)
          + sum_list (map weight body) + sum_list (map weight decorator_list))"
| "weight (FunctionDef p ident args body decorator_list returns) =
     Suc (weight args + sum_list (map weight body) + sum_list (map weight decorator_list)
          + (case returns of None \<Rightarrow> 0 | Some r \<Rightarrow> weight r))"
| "weight (Import p names) = Suc (length names)"
| "weight (ImportFrom p m names) = Suc (length names)"
| "weight (Name p ident) = 2"
| "weight (Other children) = Suc (sum_list (map weight children))"

lemma weight_children: "Suc (sum_list (map weight (iter_child_nodes n))) = weight n"
  by (cases n) (auto simp: o_def sum_list_triv split: option.splits)

text \<open>\<^verbatim>\<open>ast.walk\<close>: a queue that starts with the root; the node at the front is taken
  out and yielded, and its children are put at the back.\<close>

function walk_queue :: "node list \<Rightarrow> node list" where
  "walk_queue [] = []"
| "walk_queue (n # todo) = n # walk_queue (todo @ iter_child_nodes n)"
  by pat_completeness auto
termination
proof (relation "measure (\<lambda>todo. sum_list (map weight todo))")
  fix n todo
  show "(todo @ iter_child_nodes n, n # todo) \<in> measure (\<lambda>todo. sum_list (map weight todo))"
    using weight_children [of n] by simp
qed simp

definition walk :: "node \<Rightarrow> node list" where
  "walk n = walk_queue [n]"

fun is_ClassDef :: "node \<Rightarrow> bool" where
  "is_ClassDef (ClassDef p ident bases keywords body decorator_list) = True"
| "is_ClassDef n = False"

fun is_import :: "node \<Rightarrow> bool" where
  "is_import (Import p names) = True"
| "is_import (ImportFrom p m names) = True"
| "is_import n = False"

section \<open>The structural record\<close>

record CodeElement =
  name :: string
  type :: string
  decorators :: "string list"
  "imports" :: "string list"
  methods :: "string list"
  line_number :: int
  dependencies :: "string set"

text \<open>
  The call \<^verbatim>\<open>CodeElement(name=..., type=..., ...)\<close>. In \<^verbatim>\<open>scripts/generator.py\<close> the class
  carries \<^verbatim>\<open>@dataclass\<close>, so the call builds the record. In \<^verbatim>\<open>src/code_element.py\<close> the
  class has annotations only, no \<^verbatim>\<open>__init__\<close> and no decorator, so the call with
  arguments raises \<^verbatim>\<open>TypeError\<close>. The field \<open>dependencies\<close> holds \<^verbatim>\<open>list(set(deps))\<close>,
  whose order Python leaves open; the model keeps the set.
\<close>

type_synonym ctor =
  "string \<Rightarrow> string \<Rightarrow> string list \<Rightarrow> string list \<Rightarrow> string list \<Rightarrow> int \<Rightarrow> string set
   \<Rightarrow> exn + CodeElement"

definition CodeElement_dataclass :: ctor where
  "CodeElement_dataclass n t ds is ms l deps =
     Inr \<lparr>name = n, type = t, decorators = ds, imports = is, methods = ms,
          line_number = l, dependencies = deps\<rparr>"

definition CodeElement_plain :: ctor where
  "CodeElement_plain n t ds is ms l deps = Inl TypeError"

section \<open>The Python strategy\<close>

fun get_imports_loop :: "node list \<Rightarrow> string list \<Rightarrow> string list" where
  "get_imports_loop [] acc = acc"
| "get_imports_loop (Import p names # rest) acc =
     get_imports_loop rest (acc @ map alias_name names)"
| "get_imports_loop (ImportFrom p m names # rest) acc =
     get_imports_loop rest
       (acc @ [''from '' @ (case m of None \<Rightarrow> ''None'' | Some s \<Rightarrow> s) @ '' import ''
               @ py_join '', '' (map alias_name names)])"
| "get_imports_loop (n # rest) acc = get_imports_loop rest acc"

definition get_imports :: "node \<Rightarrow> string list" where
  "get_imports tree = get_imports_loop (walk tree) []"

fun get_dependencies_loop :: "node list \<Rightarrow> string list \<Rightarrow> string list" where
  "get_dependencies_loop [] deps = deps"
| "get_dependencies_loop (Name p ident # rest) deps = get_dependencies_loop rest (deps @ [ident])"
| "get_dependencies_loop (n # rest) deps = get_dependencies_loop rest deps"

definition get_dependencies :: "node \<Rightarrow> string set" where
  "get_dependencies n = set (get_dependencies_loop (walk n) [])"

fun name_ids :: "node list \<Rightarrow> string list" where
  "name_ids [] = []"
| "name_ids (Name p ident # ds) = ident # name_ids ds"
| "name_ids (d # ds) = name_ids ds"

fun function_names :: "node list \<Rightarrow> string list" where
  "function_names [] = []"
| "function_names (FunctionDef p ident args body decorator_list returns # ms) =
     ident # function_names ms"
| "function_names (m # ms) = function_names ms"

text \<open>The loop of \<^verbatim>\<open>_analyze_python\<close> over the walked nodes. It stops at the first exception
  and hands back the exception with the elements appended so far.\<close>

fun analyze_python_loop ::
  "ctor \<Rightarrow> node \<Rightarrow> node list \<Rightarrow> CodeElement list \<Rightarrow> exn option \<times> CodeElement list" where
  "analyze_python_loop mk tree [] elements = (None, elements)"
| "analyze_python_loop mk tree (ClassDef p ident bases keywords body decorator_list # rest)
       elements =
     (case mk ident ''class'' (name_ids decorator_list) (get_imports tree)
             (function_names body) (lineno p)
             (get_dependencies (ClassDef p ident bases keywords body decorator_list)) of
        Inl e \<Rightarrow> (Some e, elements)
      | Inr el \<Rightarrow> analyze_python_loop mk tree rest (elements @ [el]))"
| "analyze_python_loop mk tree (n # rest) elements =
     analyze_python_loop mk tree rest elements"

text \<open>\<^verbatim>\<open>_analyze_python\<close>: the parser \<^verbatim>\<open>ast.parse\<close> is a parameter. The result is the list
  returned and the exceptions printed by the handler.\<close>

definition analyze_python ::
  "ctor \<Rightarrow> (string \<Rightarrow> exn + node) \<Rightarrow> string \<Rightarrow> CodeElement list \<times> exn list" where
  "analyze_python mk parse content =
     (case parse content of
        Inl e \<Rightarrow> ([], [e])
      | Inr tree \<Rightarrow>
          (case analyze_python_loop mk tree (walk tree) [] of
             (None, elements) \<Rightarrow> (elements, [])
           | (Some e, elements) \<Rightarrow> (elements, [e])))"

section \<open>The TypeScript strategy\<close>

text \<open>The table \<^verbatim>\<open>self.patterns['angular']\<close> in insertion order. Each of its regular
  expressions is a literal text with the parenthesis escaped, so \<^verbatim>\<open>re.search\<close> with it is
  a substring test.\<close>

definition angular_patterns :: "(string \<times> string) list" where
  "angular_patterns =
     [(''component'', ''@Component(''), (''service'', ''@Injectable(''),
      (''module'', ''@NgModule(''), (''pipe'', ''@Pipe('')]"

definition re_search_literal :: "string \<Rightarrow> string \<Rightarrow> bool" where
  "re_search_literal pattern line \<longleftrightarrow> contains line pattern"

text \<open>\<^verbatim>\<open>_extract_name\<close> searches \<^verbatim>\<open>class\s+(\w+)|export\s+class\s+(\w+)\<close>: at each start
  position from the left, the first alternative before the second. Spaces and word
  characters are disjoint, so the greedy runs never give anything back.\<close>

definition match_class :: "string \<Rightarrow> string option" where
  "match_class t =
     (if prefix ''class'' t then
        (let u = drop 5 t; v = dropWhile is_space u; w = takeWhile is_word v
         in if takeWhile is_space u \<noteq> [] \<and> w \<noteq> [] then Some w else None)
      else None)"

definition match_export_class :: "string \<Rightarrow> string option" where
  "match_export_class t =
     (if prefix ''export'' t then
        (let u = drop 6 t
         in if takeWhile is_space u \<noteq> [] then match_class (dropWhile is_space u) else None)
      else None)"

fun search_class_name :: "string \<Rightarrow> string option" where
  "search_class_name [] = None"
| "search_class_name (c # cs) =
     (case match_class (c # cs) of
        Some g \<Rightarrow> Some g
      | None \<Rightarrow>
          (case match_export_class (c # cs) of
             Some g \<Rightarrow> Some g
           | None \<Rightarrow> search_class_name cs))"

definition extract_name :: "string \<Rightarrow> string" where
  "extract_name line = (case search_class_name line of Some g \<Rightarrow> g | None \<Rightarrow> ''Unknown'')"

fun extract_imports_loop :: "string list \<Rightarrow> string list \<Rightarrow> string list" where
  "extract_imports_loop [] acc = acc"
| "extract_imports_loop (line # rest) acc =
     (if startswith (strip line) ''import '' \<or> startswith (strip line) ''from ''
      then extract_imports_loop rest (acc @ [strip line])
      else extract_imports_loop rest acc)"

definition extract_imports :: "string \<Rightarrow> string list" where
  "extract_imports content = extract_imports_loop (split_nl content) []"

text \<open>\<^verbatim>\<open>_extract_methods\<close> runs \<^verbatim>\<open>re.finditer\<close> with
  \<^verbatim>\<open>(?:public|private|protected)?\s*\w+\s*\([^)]*\)\s*{\<close>. \<open>expect\<close> reads one given
  character; \<open>match_method_core\<close> matches the pattern after the optional keyword and
  returns the text left over; \<open>match_method\<close> tries the keyword first and then the
  pattern without it, and returns the length of the match.\<close>

fun expect :: "char \<Rightarrow> string \<Rightarrow> string option" where
  "expect c [] = None"
| "expect c (d # ds) = (if c = d then Some ds else None)"

definition match_method_core :: "string \<Rightarrow> string option" where
  "match_method_core u =
     (let u1 = dropWhile is_space u in
      if takeWhile is_word u1 = [] then None
      else
        (case expect CHR ''('' (dropWhile is_space (dropWhile is_word u1)) of
           None \<Rightarrow> None
         | Some u2 \<Rightarrow>
             (case expect CHR '')'' (dropWhile (\<lambda>c. c \<noteq> CHR '')'') u2) of
                None \<Rightarrow> None
              | Some u3 \<Rightarrow> expect CHR ''{'' (dropWhile is_space u3))))"

definition match_keyword :: "string \<Rightarrow> string option" where
  "match_keyword t =
     (if prefix ''public'' t then Some (drop 6 t)
      else if prefix ''private'' t then Some (drop 7 t)
      else if prefix ''protected'' t then Some (drop 9 t)
      else None)"

definition match_method :: "string \<Rightarrow> nat option" where
  "match_method t =
     (case Option.bind (match_keyword t) match_method_core of
        Some r \<Rightarrow> Some (length t - length r)
      | None \<Rightarrow>
          (case match_method_core t of
             Some r \<Rightarrow> Some (length t - length r)
           | None \<Rightarrow> None))"

text \<open>\<open>finditer_methods k t\<close> passes over the \<open>k\<close> characters that the last match still
  covers and then looks for the next match.\<close>

fun finditer_methods :: "nat \<Rightarrow> string \<Rightarrow> string list" where
  "finditer_methods k [] = []"
| "finditer_methods (Suc k) (c # cs) = finditer_methods k cs"
| "finditer_methods 0 (c # cs) =
     (case match_method (c # cs) of
        None \<Rightarrow> finditer_methods 0 cs
      | Some n \<Rightarrow> take n (c # cs) # finditer_methods (n - 1) cs)"

definition extract_methods :: "string \<Rightarrow> string list" where
  "extract_methods content = map strip (finditer_methods 0 content)"

text \<open>The inner loop of \<^verbatim>\<open>_analyze_typescript\<close> over the pattern table, for line \<open>i\<close>.
  The arguments of the constructor call are evaluated first, and \<^verbatim>\<open>lines[i+1]\<close> is the
  first of them.\<close>

fun typescript_patterns_loop ::
  "ctor \<Rightarrow> string \<Rightarrow> string list \<Rightarrow> nat \<Rightarrow> string \<Rightarrow> (string \<times> string) list
   \<Rightarrow> CodeElement list \<Rightarrow> exn + CodeElement list" where
  "typescript_patterns_loop mk content lines i line [] elements = Inr elements"
| "typescript_patterns_loop mk content lines i line ((pattern_type, pattern) # rest) elements =
     (if re_search_literal pattern line then
        (if i + 1 < length lines then
           (case mk (extract_name (lines ! (i + 1))) pattern_type [strip line]
                   (extract_imports content) (extract_methods content) (int i + 1) {} of
              Inl e \<Rightarrow> Inl e
            | Inr current_element \<Rightarrow>
                typescript_patterns_loop mk content lines i line rest
                  (elements @ [current_element]))
         else Inl IndexError)
      else typescript_patterns_loop mk content lines i line rest elements)"

fun typescript_lines_loop ::
  "ctor \<Rightarrow> string \<Rightarrow> string list \<Rightarrow> (nat \<times> string) list \<Rightarrow> CodeElement list
   \<Rightarrow> exn + CodeElement list" where
  "typescript_lines_loop mk content lines [] elements = Inr elements"
| "typescript_lines_loop mk content lines ((i, line) # rest) elements =
     (case typescript_patterns_loop mk content lines i line angular_patterns elements of
        Inl e \<Rightarrow> Inl e
      | Inr elements' \<Rightarrow> typescript_lines_loop mk content lines rest elements')"

definition analyze_typescript :: "ctor \<Rightarrow> string \<Rightarrow> exn + CodeElement list" where
  "analyze_typescript mk content =
     (let lines = split_nl content
      in typescript_lines_loop mk content lines (enumerate 0 lines) [])"

section \<open>Dispatch on the file extension\<close>

text \<open>\<^verbatim>\<open>os.path.splitext\<close> for POSIX paths: the extension starts at the last dot of the
  last path component, unless only dots come before it in that component.\<close>

definition splitext :: "string \<Rightarrow> string \<times> string" where
  "splitext p =
     (let base = rev (takeWhile (\<lambda>c. c \<noteq> CHR ''/'') (rev p));
          ext = rev (takeWhile (\<lambda>c. c \<noteq> CHR ''.'') (rev base))
      in if CHR ''.'' \<in> set base
            \<and> (\<exists>c \<in> set (take (length base - length ext - 1) base). c \<noteq> CHR ''.'')
         then (take (length p - length ext - 1) p, CHR ''.'' # ext)
         else (p, []))"

definition read_file :: "(string \<rightharpoonup> string) \<Rightarrow> string \<Rightarrow> exn + string" where
  "read_file fs file_path = (case fs file_path of None \<Rightarrow> Inl OSError | Some text \<Rightarrow> Inr text)"

text \<open>\<^verbatim>\<open>analyze_file\<close>. The class has no method \<^verbatim>\<open>_analyze_javascript\<close>, so the attribute
  lookup in the third branch raises.\<close>

definition analyze_file ::
  "ctor \<Rightarrow> (string \<Rightarrow> exn + node) \<Rightarrow> (string \<rightharpoonup> string) \<Rightarrow> string \<Rightarrow> exn + CodeElement list"
  where
  "analyze_file mk parse fs file_path =
     (case read_file fs file_path of
        Inl e \<Rightarrow> Inl e
      | Inr file_content \<Rightarrow>
          (let file_ext = snd (splitext file_path) in
           if file_ext \<in> set [''.py''] then Inr (fst (analyze_python mk parse file_content))
           else if file_ext \<in> set [''.ts'', ''.tsx''] then analyze_typescript mk file_content
           else if file_ext \<in> set [''.js'', ''.jsx''] then Inl AttributeError
           else Inr []))"

section \<open>Source segments\<close>

text \<open>Python indexing and slicing with integer bounds: a negative index counts from the
  end, an index out of range raises, and slice bounds are clipped.\<close>

definition py_index :: "'a list \<Rightarrow> int \<Rightarrow> exn + 'a" where
  "py_index xs i =
     (if 0 \<le> i \<and> i < int (length xs) then Inr (xs ! nat i)
      else if i < 0 \<and> - int (length xs) \<le> i then Inr (xs ! nat (int (length xs) + i))
      else Inl IndexError)"

definition clip :: "'a list \<Rightarrow> int \<Rightarrow> nat" where
  "clip xs i =
     (let n = int (length xs) in nat (if i < 0 then max (n + i) 0 else min i n))"

definition py_slice :: "'a list \<Rightarrow> int \<Rightarrow> int \<Rightarrow> 'a list" where
  "py_slice xs a b = take (clip xs b - clip xs a) (drop (clip xs a) xs)"

definition py_slice_from :: "'a list \<Rightarrow> int \<Rightarrow> 'a list" where
  "py_slice_from xs a = drop (clip xs a) xs"

definition py_slice_to :: "'a list \<Rightarrow> int \<Rightarrow> 'a list" where
  "py_slice_to xs b = take (clip xs b) xs"

text \<open>\<^verbatim>\<open>ast._splitlines_no_ff\<close>: lines end at \<^verbatim>\<open>\n\<close>, \<^verbatim>\<open>\r\<close> or \<^verbatim>\<open>\r\n\<close> and keep
  their end.\<close>

fun splitlines_no_ff_loop :: "string \<Rightarrow> string \<Rightarrow> string list \<Rightarrow> string list" where
  "splitlines_no_ff_loop [] next_line lines =
     (if next_line \<noteq> [] then lines @ [next_line] else lines)"
| "splitlines_no_ff_loop (c # rest) next_line lines =
     (if c = CHR 0x0D \<and> rest \<noteq> [] \<and> hd rest = CHR 0x0A then
        splitlines_no_ff_loop (tl rest) [] (lines @ [next_line @ [c, CHR 0x0A]])
      else if c = CHR 0x0D \<or> c = CHR 0x0A then
        splitlines_no_ff_loop rest [] (lines @ [next_line @ [c]])
      else splitlines_no_ff_loop rest (next_line @ [c]) lines)"

definition splitlines_no_ff :: "string \<Rightarrow> string list" where
  "splitlines_no_ff source = splitlines_no_ff_loop source [] []"

fun node_position :: "node \<Rightarrow> position option" where
  "node_position (ClassDef p ident bases keywords body decorator_list) = Some p"
| "node_position (FunctionDef p ident args body decorator_list returns) = Some p"
| "node_position (Import p names) = Some p"
| "node_position (ImportFrom p m names) = Some p"
| "node_position (Name p ident) = Some p"
| "node_position n = None"

text \<open>\<^verbatim>\<open>ast.get_source_segment(source, node)\<close>: \<^verbatim>\<open>None\<close> when the node has no end
  position, the text between the node's start and end otherwise. Column offsets count
  bytes, which are the characters of the model.\<close>

definition get_source_segment :: "string \<Rightarrow> node \<Rightarrow> exn + string option" where
  "get_source_segment source n =
     (case node_position n of
        None \<Rightarrow> Inr None
      | Some p \<Rightarrow>
          (case (end_lineno p, end_col_offset p) of
             (Some el, Some ec) \<Rightarrow>
               (let l = lineno p - 1; e = el - 1; lines = splitlines_no_ff source in
                if e = l then
                  (case py_index lines l of
                     Inl x \<Rightarrow> Inl x
                   | Inr line \<Rightarrow> Inr (Some (py_slice line (col_offset p) ec)))
                else
                  (case py_index lines l of
                     Inl x \<Rightarrow> Inl x
                   | Inr first_line \<Rightarrow>
                       (case py_index lines e of
                          Inl x \<Rightarrow> Inl x
                        | Inr last_line \<Rightarrow>
                            Inr (Some (concat
                              ([py_slice_from first_line (col_offset p)]
                               @ py_slice lines (l + 1) e
                               @ [py_slice_to last_line ec]))))))
           | _ \<Rightarrow> Inr None))"

section \<open>The class splitter\<close>

text \<open>The window's state as far as \<^verbatim>\<open>split_classes\<close> touches it: the attribute
  \<^verbatim>\<open>current_file\<close> (absent until a file has been chosen), the files that can be read with
  their text, the paths that cannot be opened for writing, the message boxes shown, and
  the writes done: the path and the text of every \<^verbatim>\<open>new_file.write\<close>, in order.\<close>

datatype dialog =
    Information
  | Warning string exn
  | Critical string exn

record world =
  current_file :: "string option"
  files :: "string \<rightharpoonup> string"
  unwritable :: "string set"
  dialogs :: "dialog list"
  written :: "(string \<times> string) list"

text \<open>\<^verbatim>\<open>os.path.dirname\<close>, \<^verbatim>\<open>os.path.basename\<close> and \<^verbatim>\<open>os.path.join\<close> for POSIX paths.\<close>

definition basename :: "string \<Rightarrow> string" where
  "basename p = rev (takeWhile (\<lambda>c. c \<noteq> CHR ''/'') (rev p))"

definition dirname :: "string \<Rightarrow> string" where
  "dirname p =
     (let head = rev (dropWhile (\<lambda>c. c \<noteq> CHR ''/'') (rev p))
      in if head \<noteq> [] \<and> (\<exists>c \<in> set head. c \<noteq> CHR ''/'')
         then rev (dropWhile (\<lambda>c. c = CHR ''/'') (rev head))
         else head)"

definition path_join :: "string \<Rightarrow> string \<Rightarrow> string" where
  "path_join a b =
     (if startswith b ''/'' then b
      else if a = [] \<or> endswith a ''/'' then a @ b
      else a @ ''/'' @ b)"

fun get_imported_names :: "node \<Rightarrow> string list" where
  "get_imported_names (Import p names) = map alias_name names"
| "get_imported_names (ImportFrom p m names) = map alias_name names"
| "get_imported_names n = []"

text \<open>\<^verbatim>\<open>any(name in class_content for name in names)\<close>: with no name the test of
  membership is never run; with a name and \<^verbatim>\<open>class_content = None\<close> it raises.\<close>

fun any_name_in :: "string option \<Rightarrow> string list \<Rightarrow> exn + bool" where
  "any_name_in class_content [] = Inr False"
| "any_name_in None (n # ns) = Inl TypeError"
| "any_name_in (Some text) (n # ns) = Inr (\<exists>m \<in> set (n # ns). contains text m)"

fun class_imports_loop ::
  "string \<Rightarrow> string option \<Rightarrow> node list \<Rightarrow> string option list \<Rightarrow> exn + string option list"
  where
  "class_imports_loop source class_content [] acc = Inr acc"
| "class_imports_loop source class_content (n # rest) acc =
     (if is_import n then
        (case get_source_segment source n of
           Inl e \<Rightarrow> Inl e
         | Inr import_content \<Rightarrow>
             (case any_name_in class_content (get_imported_names n) of
                Inl e \<Rightarrow> Inl e
              | Inr True \<Rightarrow>
                  class_imports_loop source class_content rest (acc @ [import_content])
              | Inr False \<Rightarrow> class_imports_loop source class_content rest acc))
      else class_imports_loop source class_content rest acc)"

text \<open>\<^verbatim>\<open>_get_class_imports\<close>: the list returned and the message boxes its handler shows.\<close>

definition get_class_imports ::
  "(string \<Rightarrow> exn + node) \<Rightarrow> string \<Rightarrow> node \<Rightarrow> string option list \<times> dialog list" where
  "get_class_imports parse source class_node =
     (case get_source_segment source class_node of
        Inl e \<Rightarrow> ([], [Critical ''Failed to retrieve class imports'' e])
      | Inr class_content \<Rightarrow>
          (case parse source of
             Inl e \<Rightarrow> ([], [Critical ''Failed to retrieve class imports'' e])
           | Inr tree \<Rightarrow>
               (case class_imports_loop source class_content (walk tree) [] of
                  Inl e \<Rightarrow> ([], [Critical ''Failed to retrieve class imports'' e])
                | Inr found \<Rightarrow> (found, []))))"

text \<open>\<^verbatim>\<open>"\n".join(imports + ["", class_content])\<close> raises when an item is \<^verbatim>\<open>None\<close>.\<close>

definition join_lines :: "string option list \<Rightarrow> exn + string" where
  "join_lines items =
     (if None \<in> set items then Inl TypeError else Inr (py_join ''\<newline>'' (map the items)))"

fun class_name :: "node \<Rightarrow> string" where
  "class_name (ClassDef p ident bases keywords body decorator_list) = ident"
| "class_name n = []"

text \<open>The path of the file for a class. \<open>lower\<close> stands for \<^verbatim>\<open>str.lower\<close>.\<close>

definition new_file_path :: "(string \<Rightarrow> string) \<Rightarrow> string \<Rightarrow> node \<Rightarrow> string" where
  "new_file_path lower cf class_node =
     path_join (dirname cf)
       (fst (splitext (basename cf)) @ ''_'' @ lower (class_name class_node) @ ''.py'')"

text \<open>The body of the loop in \<^verbatim>\<open>split_classes\<close> for one class, with its handler.\<close>

definition write_class ::
  "(string \<Rightarrow> string) \<Rightarrow> (string \<Rightarrow> exn + node) \<Rightarrow> string \<Rightarrow> string \<Rightarrow> node \<Rightarrow> world \<Rightarrow> world"
  where
  "write_class lower parse cf content class_node w =
     (let failed = (\<lambda>w' e. w'\<lparr>dialogs := dialogs w' @ [Warning (class_name class_node) e]\<rparr>) in
      case get_source_segment content class_node of
        Inl e \<Rightarrow> failed w e
      | Inr class_content \<Rightarrow>
          (let (found, shown) = get_class_imports parse content class_node;
               w1 = w\<lparr>dialogs := dialogs w @ shown\<rparr>
           in case join_lines (found @ [Some [], class_content]) of
                Inl e \<Rightarrow> failed w1 e
              | Inr new_content \<Rightarrow>
                  (if new_file_path lower cf class_node \<in> unwritable w1 then failed w1 OSError
                   else w1\<lparr>files := (files w1)(new_file_path lower cf class_node \<mapsto> new_content),
                           written := written w1
                             @ [(new_file_path lower cf class_node, new_content)]\<rparr>)))"

fun split_loop ::
  "(string \<Rightarrow> string) \<Rightarrow> (string \<Rightarrow> exn + node) \<Rightarrow> string \<Rightarrow> string \<Rightarrow> node list \<Rightarrow> world
   \<Rightarrow> world"
  where
  "split_loop lower parse cf content [] w = w"
| "split_loop lower parse cf content (class_node # rest) w =
     split_loop lower parse cf content rest (write_class lower parse cf content class_node w)"

definition split_classes ::
  "(string \<Rightarrow> string) \<Rightarrow> (string \<Rightarrow> exn + node) \<Rightarrow> world \<Rightarrow> world" where
  "split_classes lower parse w =
     (let failed = (\<lambda>e. w\<lparr>dialogs := dialogs w @ [Critical ''Failed to split classes'' e]\<rparr>) in
      case current_file w of
        None \<Rightarrow> w
      | Some cf \<Rightarrow>
          (case read_file (files w) cf of
             Inl e \<Rightarrow> failed e
           | Inr content \<Rightarrow>
               (if endswith cf ''.py'' then
                  (case parse content of
                     Inl e \<Rightarrow> failed e
                   | Inr tree \<Rightarrow>
                       (let classes = filter is_ClassDef (walk tree);
                            w' = split_loop lower parse cf content classes w
                        in w'\<lparr>dialogs := dialogs w' @ [Information]\<rparr>))
                else w\<lparr>dialogs := dialogs w @ [Information]\<rparr>)))"

section \<open>Notions used in the statements\<close>

text \<open>The number of class definitions in a tree, counted along the structure of the tree.\<close>

fun class_count :: "node \<Rightarrow> nat" where
  "class_count (Module body) = sum_list (map class_count body)"
| "class_count (ClassDef p ident bases keywords body decorator_list) =
     Suc (sum_list (map class_count bases) + sum_list (map class_count keywords)
          + sum_list (map class_count body) + sum_list (map class_count decorator_list))"
| "class_count (FunctionDef p ident args body decorator_list returns) =
     class_count args + sum_list (map class_count body)
     + sum_list (map class_count decorator_list)
     + (case returns of None \<Rightarrow> 0 | Some r \<Rightarrow> class_count r)"
| "class_count (Import p names) = 0"
| "class_count (ImportFrom p m names) = 0"
| "class_count (Name p ident) = 0"
| "class_count (Other children) = sum_list (map class_count children)"

text \<open>A line matches a signature when the search of some pattern of the table succeeds.\<close>

definition line_matches :: "string \<Rightarrow> bool" where
  "line_matches line \<longleftrightarrow> (\<exists>(pattern_type, pattern) \<in> set angular_patterns. re_search_literal pattern line)"

text \<open>The record that the TypeScript loop builds for line \<open>i\<close> and one pattern, and the
  records it builds for one line: one for each pattern of the table that the line matches.\<close>

definition typescript_record :: "string \<Rightarrow> string list \<Rightarrow> nat \<Rightarrow> string \<Rightarrow> string \<Rightarrow> CodeElement" where
  "typescript_record content lines i line pattern_type =
     \<lparr>name = extract_name (lines ! (i + 1)), type = pattern_type, decorators = [strip line],
      imports = extract_imports content, methods = extract_methods content,
      line_number = int i + 1, dependencies = {}\<rparr>"

definition typescript_row :: "string \<Rightarrow> string list \<Rightarrow> nat \<times> string \<Rightarrow> CodeElement list" where
  "typescript_row content lines = (\<lambda>(i, line).
     map (\<lambda>(pattern_type, pattern). typescript_record content lines i line pattern_type)
       (filter (\<lambda>(pattern_type, pattern). re_search_literal pattern line) angular_patterns))"

text \<open>The source segment of a node as a text; \<open>segments_ok\<close> says that every class and
  import statement of the tree has one in the source, as the trees that \<^verbatim>\<open>ast.parse\<close> returns
  for that source do. An import statement is \<open>relevant\<close> for a class text when one of its
  imported names occurs in the text: for \<^verbatim>\<open>import X as Y\<close> the name is \<open>X\<close>, for
  \<^verbatim>\<open>from M import A as B\<close> it is \<open>A\<close>; neither the module \<open>M\<close> nor the names after \<^verbatim>\<open>as\<close>
  count. \<open>new_content\<close> is the text that the loop body of \<^verbatim>\<open>split_classes\<close> computes for a
  class, or the exception raised before the file is opened.\<close>

definition segment :: "string \<Rightarrow> node \<Rightarrow> string" where
  "segment source n = (case get_source_segment source n of Inr (Some s) \<Rightarrow> s | _ \<Rightarrow> [])"

definition has_segment :: "string \<Rightarrow> node \<Rightarrow> bool" where
  "has_segment source n = (case get_source_segment source n of Inr (Some s) \<Rightarrow> True | _ \<Rightarrow> False)"

definition segments_ok :: "string \<Rightarrow> node \<Rightarrow> bool" where
  "segments_ok source tree \<longleftrightarrow>
     (\<forall>n \<in> set (walk tree). is_import n \<or> is_ClassDef n \<longrightarrow> has_segment source n)"

fun relevant :: "string \<Rightarrow> node \<Rightarrow> bool" where
  "relevant class_text (Import p names) =
     (\<exists>a \<in> set names. sublist (alias_name a) class_text)"
| "relevant class_text (ImportFrom p m names) =
     (\<exists>a \<in> set names. sublist (alias_name a) class_text)"
| "relevant class_text n = False"

definition new_content :: "(string \<Rightarrow> exn + node) \<Rightarrow> string \<Rightarrow> node \<Rightarrow> exn + string" where
  "new_content parse content class_node =
     (case get_source_segment content class_node of
        Inl e \<Rightarrow> Inl e
      | Inr class_content \<Rightarrow>
          join_lines (fst (get_class_imports parse content class_node) @ [Some [], class_content]))"

text \<open>The writes that the loop body does for one class: none when computing the text
  raises or the path is among the \<open>blocked\<close> ones, one write otherwise.\<close>

definition class_writes ::
  "(string \<Rightarrow> string) \<Rightarrow> (string \<Rightarrow> exn + node) \<Rightarrow> string \<Rightarrow> string \<Rightarrow> string set \<Rightarrow> node
   \<Rightarrow> (string \<times> string) list" where
  "class_writes lower parse cf content blocked class_node =
     (case new_content parse content class_node of
        Inl e \<Rightarrow> []
      | Inr t \<Rightarrow>
          if new_file_path lower cf class_node \<in> blocked then []
          else [(new_file_path lower cf class_node, t)])"

text \<open>The reading of "in file order" in the specification of the splitter: the relevant
  import statements sorted by the place where they start, and the output built from them.\<close>

definition position_key :: "node \<Rightarrow> int \<times> int" where
  "position_key n = (case node_position n of None \<Rightarrow> (0, 0) | Some p \<Rightarrow> (lineno p, col_offset p))"

definition file_order_imports :: "string \<Rightarrow> node \<Rightarrow> node \<Rightarrow> string list" where
  "file_order_imports source tree class_node =
     map (segment source)
       (sort_key position_key (filter (relevant (segment source class_node)) (walk tree)))"

definition file_order_content :: "string \<Rightarrow> node \<Rightarrow> node \<Rightarrow> string" where
  "file_order_content source tree class_node =
     py_join ''\<newline>'' (file_order_imports source tree class_node @ [[], segment source class_node])"

section \<open>Example files and their trees\<close>

definition span :: "int \<Rightarrow> int \<Rightarrow> int \<Rightarrow> int \<Rightarrow> position" where
  "span l c el ec = \<lparr>lineno = l, col_offset = c, end_lineno = Some el, end_col_offset = Some ec\<rparr>"

text \<open>A file with two imports at module level and two classes, and the tree of it. The
  parser of the example knows this one text.\<close>

definition two_class_source :: string where
  "two_class_source =
     ''import os\<newline>import re\<newline>class A:\<newline>  x = os\<newline>class B:\<newline>  y = 1''"

definition class_A :: node where
  "class_A = ClassDef (span 3 0 4 8) ''A'' [] []
               [Other [Name (span 4 2 4 3) ''x'', Name (span 4 6 4 8) ''os'']] []"

definition class_B :: node where
  "class_B = ClassDef (span 5 0 6 7) ''B'' [] []
               [Other [Name (span 6 2 6 3) ''y'', Other []]] []"

definition two_class_tree :: node where
  "two_class_tree =
     Module [Import (span 1 0 1 9) [Alias ''os'' None],
             Import (span 2 0 2 9) [Alias ''re'' None], class_A, class_B]"

definition two_class_parse :: "string \<Rightarrow> exn + node" where
  "two_class_parse s = (if s = two_class_source then Inr two_class_tree else Inl SyntaxError)"

definition two_class_world :: world where
  "two_class_world =
     \<lparr>current_file = Some ''d/m.py'', files = [''d/m.py'' \<mapsto> two_class_source],
      unwritable = {''d/m_a.py''}, dialogs = [], written = []\<rparr>"

definition broken_world :: world where
  "broken_world =
     \<lparr>current_file = Some ''d/m.py'', files = [''d/m.py'' \<mapsto> ''class''],
      unwritable = {}, dialogs = [], written = []\<rparr>"

text \<open>A file with an import inside a function before an import at module level.\<close>

definition nested_source :: string where
  "nested_source = ''def f():\<newline> import os\<newline>import re\<newline>class C:\<newline> x = os, re''"

definition class_C :: node where
  "class_C = ClassDef (span 4 0 5 11) ''C'' [] []
               [Other [Name (span 5 1 5 2) ''x'',
                       Other [Name (span 5 5 5 7) ''os'', Name (span 5 9 5 11) ''re'', Other []]]]
               []"

definition nested_tree :: node where
  "nested_tree =
     Module [FunctionDef (span 1 0 2 10) ''f'' (Other [])
               [Import (span 2 1 2 10) [Alias ''os'' None]] [] None,
             Import (span 3 0 3 9) [Alias ''re'' None], class_C]"

definition nested_parse :: "string \<Rightarrow> exn + node" where
  "nested_parse s = (if s = nested_source then Inr nested_tree else Inl SyntaxError)"

definition nested_world :: world where
  "nested_world =
     \<lparr>current_file = Some ''m.py'', files = [''m.py'' \<mapsto> nested_source],
      unwritable = {}, dialogs = [], written = []\<rparr>"

text \<open>A file whose imports rename what they import. The class text holds \<open>po\<close>, a name
  given after \<^verbatim>\<open>as\<close>, \<open>re\<close>, a module of a \<^verbatim>\<open>from\<close> import, and \<open>sub\<close>, an imported name.\<close>

definition alias_source :: string where
  "alias_source =
     ''import os as po\<newline>from re import match\<newline>from io import sub\<newline>class Q:\<newline>  x = po, re, sub''"

definition class_Q :: node where
  "class_Q = ClassDef (span 4 0 5 17) ''Q'' [] []
               [Other [Name (span 5 2 5 3) ''x'',
                       Other [Name (span 5 6 5 8) ''po'', Name (span 5 10 5 12) ''re'',
                              Name (span 5 14 5 17) ''sub'', Other []]]]
               []"

definition alias_tree :: node where
  "alias_tree =
     Module [Import (span 1 0 1 15) [Alias ''os'' (Some ''po'')],
             ImportFrom (span 2 0 2 20) (Some ''re'') [Alias ''match'' None],
             ImportFrom (span 3 0 3 18) (Some ''io'') [Alias ''sub'' None], class_Q]"

definition alias_parse :: "string \<Rightarrow> exn + node" where
  "alias_parse s = (if s = alias_source then Inr alias_tree else Inl SyntaxError)"

definition alias_world :: world where
  "alias_world =
     \<lparr>current_file = Some ''m.py'', files = [''m.py'' \<mapsto> alias_source],
      unwritable = {}, dialogs = [], written = []\<rparr>"

text \<open>A file with two classes whose names differ by case only.\<close>

definition same_path_source :: string where
  "same_path_source = ''class M:\<newline> a = 1\<newline>class m:\<newline> b = 2''"

definition class_upper_M :: node where
  "class_upper_M = ClassDef (span 1 0 2 6) ''M'' [] []
                     [Other [Name (span 2 1 2 2) ''a'', Other []]] []"

definition class_lower_m :: node where
  "class_lower_m = ClassDef (span 3 0 4 6) ''m'' [] []
                     [Other [Name (span 4 1 4 2) ''b'', Other []]] []"

definition same_path_tree :: node where
  "same_path_tree = Module [class_upper_M, class_lower_m]"

definition same_path_parse :: "string \<Rightarrow> exn + node" where
  "same_path_parse s = (if s = same_path_source then Inr same_path_tree else Inl SyntaxError)"

definition same_path_world :: world where
  "same_path_world =
     \<lparr>current_file = Some ''f.py'', files = [''f.py'' \<mapsto> same_path_source],
      unwritable = {}, dialogs = [], written = []\<rparr>"

section \<open>The walk\<close>

lemma class_count_children:
  "class_count n = (if is_ClassDef n then 1 else 0) + sum_list (map class_count (iter_child_nodes n))"
  by (cases n) (simp_all add: o_def split: option.splits)

lemma walk_queue_class_count:
  "length (filter is_ClassDef (walk_queue todo)) = sum_list (map class_count todo)"
proof (induction todo rule: walk_queue.induct)
  case 1
  show ?case by simp
next
  case (2 n todo)
  then show ?case by (simp add: class_count_children [of n])
qed

lemma walk_class_count: "length (filter is_ClassDef (walk tree)) = class_count tree"
  unfolding walk_def walk_queue_class_count by simp

lemma walk_queue_append:
  "walk_queue (xs @ ys) = xs @ walk_queue (ys @ concat (map iter_child_nodes xs))"
  by (induction xs arbitrary: ys) simp_all

lemma walk_Module:
  "walk (Module body) = Module body # body @ walk_queue (concat (map iter_child_nodes body))"
  using walk_queue_append [of body "[]"] by (simp add: walk_def)

section \<open>The Python strategy with either constructor\<close>

lemma dataclass_loop:
  "fst (analyze_python_loop CodeElement_dataclass tree ns els) = None
   \<and> length (snd (analyze_python_loop CodeElement_dataclass tree ns els))
       = length els + length (filter is_ClassDef ns)
   \<and> (\<forall>e \<in> set (snd (analyze_python_loop CodeElement_dataclass tree ns els)).
         e \<in> set els \<or> (type e = ''class'' \<and> imports e = get_imports tree))"
proof (induction ns arbitrary: els)
  case Nil
  show ?case by simp
next
  case (Cons n ns)
  show ?case
  proof (cases n)
    case (ClassDef p ident bs ks body ds)
    define el where "el = \<lparr>name = ident, type = ''class'', decorators = name_ids ds,
      imports = get_imports tree, methods = function_names body, line_number = lineno p,
      dependencies = get_dependencies (ClassDef p ident bs ks body ds)\<rparr>"
    have step: "analyze_python_loop CodeElement_dataclass tree (n # ns) els
                = analyze_python_loop CodeElement_dataclass tree ns (els @ [el])"
      by (simp add: ClassDef CodeElement_dataclass_def el_def)
    have el: "type el = ''class''" "imports el = get_imports tree"
      by (simp_all add: el_def)
    from Cons.IH [of "els @ [el]"] el show ?thesis
      unfolding step by (auto simp: ClassDef)
  qed (use Cons.IH [of els] in simp_all)
qed

lemma plain_loop:
  "snd (analyze_python_loop CodeElement_plain tree ns els) = els"
  by (induction CodeElement_plain tree ns els rule: analyze_python_loop.induct)
     (simp_all add: CodeElement_plain_def)

lemma plain_analyze_python: "fst (analyze_python CodeElement_plain parse content) = []"
proof (cases "parse content")
  case (Inl e)
  then show ?thesis by (simp add: analyze_python_def)
next
  case (Inr tree)
  obtain ex out where r: "analyze_python_loop CodeElement_plain tree (walk tree) [] = (ex, out)"
    by (cases "analyze_python_loop CodeElement_plain tree (walk tree) []")
  with plain_loop [of tree "walk tree" "[]"] have "out = []" by simp
  with Inr r show ?thesis by (cases ex) (simp_all add: analyze_python_def)
qed

section \<open>The TypeScript strategy with either constructor\<close>

lemma plain_patterns_loop:
  "typescript_patterns_loop CodeElement_plain content lines i line ps els =
     (if \<exists>(k, pat) \<in> set ps. re_search_literal pat line
      then Inl (if i + 1 < length lines then TypeError else IndexError)
      else Inr els)"
  by (induction ps arbitrary: els) (auto simp: CodeElement_plain_def)

lemma plain_lines_loop:
  "\<exists>(i, line) \<in> set xs. line_matches line \<Longrightarrow>
     \<exists>e. typescript_lines_loop CodeElement_plain content lines xs els = Inl e"
proof (induction xs arbitrary: els)
  case Nil
  then show ?case by simp
next
  case (Cons x xs)
  obtain i line where x: "x = (i, line)" by (cases x)
  show ?case
  proof (cases "line_matches line")
    case True
    then show ?thesis
      by (simp add: x plain_patterns_loop line_matches_def)
  next
    case False
    with Cons.prems x have "\<exists>(i, line) \<in> set xs. line_matches line" by auto
    from Cons.IH [OF this] False show ?thesis
      by (simp add: x plain_patterns_loop line_matches_def)
  qed
qed

lemma plain_analyze_typescript:
  assumes "\<exists>line \<in> set (split_nl content). line_matches line"
  shows "\<exists>e. analyze_typescript CodeElement_plain content = Inl e"
proof -
  from assms obtain line where l: "line \<in> set (split_nl content)" "line_matches line" by blast
  then obtain k where "k < length (split_nl content)" "split_nl content ! k = line"
    by (auto simp: in_set_conv_nth)
  then have "(k, line) \<in> set (enumerate 0 (split_nl content))"
    by (simp add: in_set_enumerate_eq)
  with l have "\<exists>(i, line) \<in> set (enumerate 0 (split_nl content)). line_matches line" by blast
  from plain_lines_loop [OF this, of content "split_nl content" "[]"] show ?thesis
    by (simp add: analyze_typescript_def Let_def)
qed

lemma last_line_patterns_loop:
  "\<not> i + 1 < length lines \<Longrightarrow>
   typescript_patterns_loop mk content lines i line ps els =
     (if \<exists>(k, pat) \<in> set ps. re_search_literal pat line then Inl IndexError else Inr els)"
  by (induction ps arbitrary: els) auto

lemma dataclass_patterns_loop:
  "i + 1 < length lines \<Longrightarrow>
   \<exists>out. typescript_patterns_loop CodeElement_dataclass content lines i line ps els = Inr out"
  by (induction ps arbitrary: els) (auto simp: CodeElement_dataclass_def)

lemma dataclass_lines_loop:
  "\<forall>(i, line) \<in> set xs. i + 1 < length lines \<Longrightarrow>
   \<exists>out. typescript_lines_loop CodeElement_dataclass content lines xs els = Inr out"
proof (induction xs arbitrary: els)
  case Nil
  show ?case by simp
next
  case (Cons x xs)
  obtain i line where x: "x = (i, line)" by (cases x)
  with Cons.prems have "i + 1 < length lines" by simp
  from dataclass_patterns_loop [OF this] obtain out where
    "typescript_patterns_loop CodeElement_dataclass content lines i line angular_patterns els = Inr out"
    by blast
  moreover from Cons.prems have "\<forall>(i, line) \<in> set xs. i + 1 < length lines" by simp
  from Cons.IH [OF this] obtain out' where
    "typescript_lines_loop CodeElement_dataclass content lines xs out = Inr out'" by blast
  ultimately show ?case by (simp add: x)
qed

lemma lines_loop_append:
  "typescript_lines_loop mk content lines (xs @ ys) els =
     (case typescript_lines_loop mk content lines xs els of
        Inl e \<Rightarrow> Inl e
      | Inr els' \<Rightarrow> typescript_lines_loop mk content lines ys els')"
  by (induction xs arbitrary: els) (auto split: sum.splits)

lemma split_nl_not_Nil: "split_nl s \<noteq> []"
  by (induction s) (auto split: list.splits)

lemma enumerate_snoc:
  "lines \<noteq> [] \<Longrightarrow>
   enumerate 0 lines = enumerate 0 (butlast lines) @ [(length lines - 1, last lines)]"
proof -
  assume "lines \<noteq> []"
  then have "lines = butlast lines @ [last lines]" by simp
  then have "enumerate 0 lines = enumerate 0 (butlast lines @ [last lines])" by simp
  also have "\<dots> = enumerate 0 (butlast lines) @ [(length lines - 1, last lines)]"
    by (simp add: enumerate_append_eq)
  finally show ?thesis .
qed

lemma last_line_signature_raises:
  assumes "line_matches (last (split_nl content))"
  shows "analyze_typescript CodeElement_dataclass content = Inl IndexError"
    and "\<exists>e. analyze_typescript mk content = Inl e"
proof -
  let ?lines = "split_nl content"
  have ne: "?lines \<noteq> []" by (rule split_nl_not_Nil)
  have en: "enumerate 0 ?lines = enumerate 0 (butlast ?lines) @ [(length ?lines - 1, last ?lines)]"
    by (rule enumerate_snoc [OF ne])
  have lastrow: "typescript_lines_loop mk' content ?lines [(length ?lines - 1, last ?lines)] els
                 = Inl IndexError" for mk' els
    using assms ne by (simp add: last_line_patterns_loop line_matches_def)
  have app: "typescript_lines_loop mk' content ?lines (enumerate 0 ?lines) [] =
     (case typescript_lines_loop mk' content ?lines (enumerate 0 (butlast ?lines)) [] of
        Inl e \<Rightarrow> Inl e
      | Inr els' \<Rightarrow> Inl IndexError)" for mk'
  proof -
    have "typescript_lines_loop mk' content ?lines (enumerate 0 ?lines) [] =
          typescript_lines_loop mk' content ?lines
            (enumerate 0 (butlast ?lines) @ [(length ?lines - 1, last ?lines)]) []"
      using en by simp
    also have "\<dots> = (case typescript_lines_loop mk' content ?lines (enumerate 0 (butlast ?lines)) [] of
        Inl e \<Rightarrow> Inl e
      | Inr els' \<Rightarrow> Inl IndexError)"
      by (simp only: lines_loop_append lastrow)
    finally show ?thesis .
  qed
  have "\<forall>(i, line) \<in> set (enumerate 0 (butlast ?lines)). i + 1 < length ?lines"
    by (auto simp: in_set_enumerate_eq)
  from dataclass_lines_loop [OF this] obtain out where
    "typescript_lines_loop CodeElement_dataclass content ?lines (enumerate 0 (butlast ?lines)) [] = Inr out"
    by blast
  then show "analyze_typescript CodeElement_dataclass content = Inl IndexError"
    unfolding analyze_typescript_def Let_def app by simp
  show "\<exists>e. analyze_typescript mk content = Inl e"
    unfolding analyze_typescript_def Let_def app by (simp split: sum.splits)
qed

lemma dataclass_patterns_loop_eq:
  "i + 1 < length lines \<Longrightarrow>
   typescript_patterns_loop CodeElement_dataclass content lines i line ps els =
     Inr (els @ map (\<lambda>(k, pat). typescript_record content lines i line k)
                  (filter (\<lambda>(k, pat). re_search_literal pat line) ps))"
  by (induction ps arbitrary: els)
     (auto simp: CodeElement_dataclass_def typescript_record_def)

lemma no_match_patterns_loop:
  "\<not> (\<exists>(k, pat) \<in> set ps. re_search_literal pat line) \<Longrightarrow>
   typescript_patterns_loop mk content lines i line ps els = Inr els"
  by (induction ps arbitrary: els) auto

lemma no_match_row: "\<not> line_matches line \<Longrightarrow> typescript_row content lines (i, line) = []"
  by (auto simp: typescript_row_def line_matches_def filter_empty_conv)

lemma dataclass_lines_loop_eq:
  "\<forall>(i, line) \<in> set xs. i + 1 < length lines \<or> \<not> line_matches line \<Longrightarrow>
   typescript_lines_loop CodeElement_dataclass content lines xs els =
     Inr (els @ concat (map (typescript_row content lines) xs))"
proof (induction xs arbitrary: els)
  case Nil
  show ?case by simp
next
  case (Cons x xs)
  obtain i line where x: "x = (i, line)" by (cases x)
  from Cons.prems have rest: "\<forall>(i, line) \<in> set xs. i + 1 < length lines \<or> \<not> line_matches line"
    by simp
  have "typescript_patterns_loop CodeElement_dataclass content lines i line angular_patterns els
        = Inr (els @ typescript_row content lines (i, line))"
  proof (cases "i + 1 < length lines")
    case True
    then show ?thesis by (simp add: dataclass_patterns_loop_eq typescript_row_def)
  next
    case False
    with Cons.prems x have nm: "\<not> line_matches line" by simp
    then have "\<not> (\<exists>(k, pat) \<in> set angular_patterns. re_search_literal pat line)"
      by (simp add: line_matches_def)
    from no_match_patterns_loop [OF this] nm show ?thesis
      by (simp add: no_match_row)
  qed
  with Cons.IH [OF rest] show ?case by (simp add: x)
qed

lemma generator_analyze_typescript_eq:
  assumes "\<not> line_matches (last (split_nl content))"
  shows "analyze_typescript CodeElement_dataclass content =
           Inr (concat (map (typescript_row content (split_nl content))
                          (enumerate 0 (split_nl content))))"
proof -
  let ?lines = "split_nl content"
  have "i + 1 < length ?lines \<or> \<not> line_matches line"
    if in_e: "(i, line) \<in> set (enumerate 0 ?lines)" for i line
  proof (cases "i + 1 < length ?lines")
    case True
    then show ?thesis by simp
  next
    case False
    from in_e have i: "i < length ?lines" "line = ?lines ! i"
      by (simp_all add: in_set_enumerate_eq)
    with False have "i = length ?lines - 1" by simp
    with i have "line = last ?lines" by (simp add: last_conv_nth split_nl_not_Nil)
    with assms show ?thesis by simp
  qed
  then have "\<forall>(i, line) \<in> set (enumerate 0 ?lines). i + 1 < length ?lines \<or> \<not> line_matches line"
    by blast
  from dataclass_lines_loop_eq [OF this, of content "[]"] show ?thesis
    by (simp add: analyze_typescript_def Let_def)
qed

lemma component_row:
  assumes "re_search_literal ''@Component('' line"
  shows "filter (\<lambda>e. line_number e = int i + 1 \<and> type e = ''component'')
           (typescript_row content lines (i, line))
         = [typescript_record content lines i line ''component'']"
  using assms
  by (simp add: typescript_row_def angular_patterns_def typescript_record_def)

lemma other_row:
  "j \<noteq> i \<Longrightarrow>
   filter (\<lambda>e. line_number e = int i + 1 \<and> type e = ''component'')
     (typescript_row content lines (j, line)) = []"
  by (auto simp: typescript_row_def typescript_record_def filter_empty_conv)

section \<open>The splitter\<close>

lemma has_segment_eq: "has_segment source n \<Longrightarrow> get_source_segment source n = Inr (Some (segment source n))"
  by (auto simp: has_segment_def segment_def split: sum.splits option.splits)

lemma any_name_in_Some: "any_name_in (Some t) ns = Inr (\<exists>m \<in> set ns. contains t m)"
  by (cases ns) simp_all

lemma relevant_import:
  "is_import n \<Longrightarrow> relevant t n \<longleftrightarrow> (\<exists>m \<in> set (get_imported_names n). contains t m)"
  by (cases n) (simp_all add: contains_def)

lemma relevant_is_import: "relevant t n \<Longrightarrow> is_import n"
  by (cases n) simp_all

lemma class_imports_loop_ok:
  "\<forall>n \<in> set ns. is_import n \<longrightarrow> has_segment source n \<Longrightarrow>
   class_imports_loop source (Some t) ns acc =
     Inr (acc @ map (\<lambda>n. Some (segment source n)) (filter (relevant t) ns))"
proof (induction ns arbitrary: acc)
  case Nil
  show ?case by simp
next
  case (Cons n ns)
  then have ih: "class_imports_loop source (Some t) ns acc' =
     Inr (acc' @ map (\<lambda>n. Some (segment source n)) (filter (relevant t) ns))" for acc'
    by simp
  show ?case
  proof (cases "is_import n")
    case True
    with Cons.prems have "get_source_segment source n = Inr (Some (segment source n))"
      by (simp add: has_segment_eq)
    with True relevant_import [OF True, of t] show ?thesis
      by (simp add: ih any_name_in_Some)
  next
    case False
    with relevant_is_import [of t n] have "\<not> relevant t n" by blast
    with False show ?thesis by (simp add: ih)
  qed
qed

lemma get_class_imports_ok:
  assumes "parse source = Inr tree" "segments_ok source tree"
    and "c \<in> set (walk tree)" "is_ClassDef c"
  shows "get_class_imports parse source c =
     (map (\<lambda>n. Some (segment source n)) (filter (relevant (segment source c)) (walk tree)), [])"
proof -
  from assms have c: "get_source_segment source c = Inr (Some (segment source c))"
    by (simp add: segments_ok_def has_segment_eq)
  from assms(2) have "\<forall>n \<in> set (walk tree). is_import n \<longrightarrow> has_segment source n"
    by (simp add: segments_ok_def)
  from class_imports_loop_ok [OF this, of "segment source c" "[]"] c assms(1)
  show ?thesis by (simp add: get_class_imports_def)
qed

lemma py_join_Cons: "ys \<noteq> [] \<Longrightarrow> py_join sep (x # ys) = x @ sep @ py_join sep ys"
  by (cases ys) simp_all

lemma py_join_import_block:
  "py_join ''\<newline>'' (found @ [[], t]) = concat (map (\<lambda>s. s @ ''\<newline>'') found) @ ''\<newline>'' @ t"
  by (induction found) (simp_all add: py_join_Cons)

lemma join_lines_Some:
  "join_lines (map Some found @ [Some [], Some t]) = Inr (py_join ''\<newline>'' (found @ [[], t]))"
  by (auto simp: join_lines_def o_def)

lemma new_content_ok:
  assumes "parse source = Inr tree" "segments_ok source tree"
    and "c \<in> set (walk tree)" "is_ClassDef c"
  shows "new_content parse source c =
     Inr (concat (map (\<lambda>s. s @ ''\<newline>'')
            (map (segment source) (filter (relevant (segment source c)) (walk tree))))
          @ ''\<newline>'' @ segment source c)"
proof -
  from assms have c: "get_source_segment source c = Inr (Some (segment source c))"
    by (simp add: segments_ok_def has_segment_eq)
  have m: "map (\<lambda>n. Some (segment source n)) ns = map Some (map (segment source) ns)" for ns
    by simp
  show ?thesis
    unfolding new_content_def get_class_imports_ok [of parse source tree c, OF assms] c
    by (simp only: sum.case fst_conv m join_lines_Some py_join_import_block)
qed

lemma write_class_files:
  "files (write_class lower parse cf content c w) =
     files w ++ map_of (class_writes lower parse cf content (unwritable w) c)"
  by (auto simp: write_class_def new_content_def class_writes_def Let_def
           split: sum.splits prod.splits)

lemma write_class_written:
  "written (write_class lower parse cf content c w) =
     written w @ class_writes lower parse cf content (unwritable w) c"
  by (auto simp: write_class_def new_content_def class_writes_def Let_def
           split: sum.splits prod.splits)

lemma write_class_unwritable:
  "unwritable (write_class lower parse cf content c w) = unwritable w"
  by (auto simp: write_class_def Let_def split: sum.splits prod.splits)

lemma write_class_dialogs_prefix:
  "prefix (dialogs w) (dialogs (write_class lower parse cf content c w))"
  by (auto simp: write_class_def Let_def split: sum.splits prod.splits)

lemma write_class_warning:
  "new_content parse content c = Inl e \<or> new_file_path lower cf c \<in> unwritable w \<Longrightarrow>
   \<exists>e'. Warning (class_name c) e' \<in> set (dialogs (write_class lower parse cf content c w))"
  by (auto simp: write_class_def new_content_def Let_def split: sum.splits prod.splits)

lemma rev_class_writes:
  "rev (class_writes lower parse cf content blocked c) = class_writes lower parse cf content blocked c"
  by (simp add: class_writes_def split: sum.splits)

lemma split_loop_unwritable:
  "unwritable (split_loop lower parse cf content cs w) = unwritable w"
  by (induction cs arbitrary: w) (simp_all add: write_class_unwritable)

lemma split_loop_written:
  "written (split_loop lower parse cf content cs w) =
     written w @ concat (map (class_writes lower parse cf content (unwritable w)) cs)"
  by (induction cs arbitrary: w) (simp_all add: write_class_written write_class_unwritable)

lemma split_loop_files:
  "files (split_loop lower parse cf content cs w) =
     files w ++ map_of (rev (concat (map (class_writes lower parse cf content (unwritable w)) cs)))"
  by (induction cs arbitrary: w)
     (simp_all add: write_class_files write_class_unwritable rev_class_writes)

lemma split_loop_dialogs_prefix:
  "prefix (dialogs w) (dialogs (split_loop lower parse cf content cs w))"
proof (induction cs arbitrary: w)
  case Nil
  show ?case by simp
next
  case (Cons c cs)
  from write_class_dialogs_prefix Cons.IH show ?case
    by (simp del: prefix_def) (rule prefix_order.trans)
qed

lemma split_loop_append:
  "split_loop lower parse cf content (xs @ ys) w =
     split_loop lower parse cf content ys (split_loop lower parse cf content xs w)"
  by (induction xs arbitrary: w) simp_all

lemma split_loop_log:
  "files (split_loop lower parse cf content cs w) =
     files w ++ map_of (rev (drop (length (written w))
                               (written (split_loop lower parse cf content cs w))))"
  by (simp add: split_loop_files split_loop_written)

lemma split_loop_other_paths:
  "\<forall>y \<in> set ys. new_file_path lower cf y \<noteq> p \<Longrightarrow>
   files (split_loop lower parse cf content ys w) p = files w p"
  by (induction ys arbitrary: w)
     (auto simp: write_class_files class_writes_def map_add_def split: sum.splits)

lemma split_loop_writes:
  assumes "new_content parse content d = Inr t"
    and "new_file_path lower cf d \<notin> unwritable w"
  shows "(new_file_path lower cf d, t)
           \<in> set (written (split_loop lower parse cf content (xs @ d # ys) w))"
    and "\<forall>y \<in> set ys. new_file_path lower cf y \<noteq> new_file_path lower cf d \<Longrightarrow>
         files (split_loop lower parse cf content (xs @ d # ys) w) (new_file_path lower cf d)
           = Some t"
proof -
  from assms have cw: "class_writes lower parse cf content (unwritable w) d
                       = [(new_file_path lower cf d, t)]"
    by (simp add: class_writes_def)
  then show "(new_file_path lower cf d, t)
           \<in> set (written (split_loop lower parse cf content (xs @ d # ys) w))"
    by (simp add: split_loop_written)
  let ?w1 = "split_loop lower parse cf content xs w"
  assume later: "\<forall>y \<in> set ys. new_file_path lower cf y \<noteq> new_file_path lower cf d"
  have "unwritable ?w1 = unwritable w" by (rule split_loop_unwritable)
  with cw have "files (write_class lower parse cf content d ?w1) (new_file_path lower cf d) = Some t"
    by (simp add: write_class_files)
  with split_loop_other_paths [OF later]
  show "files (split_loop lower parse cf content (xs @ d # ys) w) (new_file_path lower cf d)
           = Some t"
    by (simp add: split_loop_append)
qed

lemma split_loop_warns:
  assumes "c \<in> set cs"
    and "new_content parse content c = Inl e \<or> new_file_path lower cf c \<in> unwritable w"
  shows "\<exists>e'. Warning (class_name c) e' \<in> set (dialogs (split_loop lower parse cf content cs w))"
proof -
  from assms(1) obtain xs ys where cs: "cs = xs @ c # ys" by (auto simp: in_set_conv_decomp)
  let ?w1 = "split_loop lower parse cf content xs w"
  have "unwritable ?w1 = unwritable w" by (rule split_loop_unwritable)
  with assms(2)
  have "new_content parse content c = Inl e \<or> new_file_path lower cf c \<in> unwritable ?w1"
    by simp
  from write_class_warning [OF this] obtain e' where
    "Warning (class_name c) e' \<in> set (dialogs (write_class lower parse cf content c ?w1))"
    by blast
  moreover have "set (dialogs (write_class lower parse cf content c ?w1))
      \<subseteq> set (dialogs (split_loop lower parse cf content ys
                         (write_class lower parse cf content c ?w1)))"
    using split_loop_dialogs_prefix by (rule set_mono_prefix)
  ultimately show ?thesis by (auto simp: cs split_loop_append)
qed

lemma split_classes_python:
  assumes "current_file w = Some cf" and "files w cf = Some content"
    and "endswith cf ''.py''" and "parse content = Inr tree"
  shows "split_classes lower parse w =
           (split_loop lower parse cf content (filter is_ClassDef (walk tree)) w)
             \<lparr>dialogs := dialogs (split_loop lower parse cf content
                                      (filter is_ClassDef (walk tree)) w) @ [Information]\<rparr>"
  using assms by (simp add: split_classes_def read_file_def Let_def)

section \<open>Facts about the example files\<close>

lemma two_class_classes_B: "filter is_ClassDef (walk two_class_tree) = [class_A] @ class_B # []"
  by code_simp

lemma two_class_parse_source: "two_class_parse two_class_source = Inr two_class_tree"
  by (simp add: two_class_parse_def)

lemma alias_classes: "filter is_ClassDef (walk alias_tree) = [class_Q]"
  by code_simp

lemma alias_parse_source: "alias_parse alias_source = Inr alias_tree"
  by (simp add: alias_parse_def)

lemma alias_segments_ok: "segments_ok alias_source alias_tree"
  by code_simp

section \<open>Claims about the extractor\<close>

lemma generator_analyze_python_classes:
  assumes "parse content = Inr tree"
  shows "length (fst (analyze_python CodeElement_dataclass parse content)) = class_count tree"
    and "\<forall>e \<in> set (fst (analyze_python CodeElement_dataclass parse content)). type e = ''class''"
    and "snd (analyze_python CodeElement_dataclass parse content) = []"
proof -
  obtain ex out where r:
    "analyze_python_loop CodeElement_dataclass tree (walk tree) [] = (ex, out)"
    by (cases "analyze_python_loop CodeElement_dataclass tree (walk tree) []")
  with dataclass_loop [of tree "walk tree" "[]"]
  have "ex = None" "length out = class_count tree" "\<forall>e \<in> set out. type e = ''class''"
    by (simp_all add: walk_class_count)
  with r assms show
    "length (fst (analyze_python CodeElement_dataclass parse content)) = class_count tree"
    "\<forall>e \<in> set (fst (analyze_python CodeElement_dataclass parse content)). type e = ''class''"
    "snd (analyze_python CodeElement_dataclass parse content) = []"
    by (simp_all add: analyze_python_def)
qed

text \<open>
  Claim C1: for valid Python text with N class definitions the Python analysis returns N
  records of kind \<open>class\<close>. The copy in \<^verbatim>\<open>scripts/generator.py\<close> does so
  (\<open>generator_analyze_python_classes\<close>). The copy in \<^verbatim>\<open>src/code_analyzer.py\<close> builds its
  records with the class of \<^verbatim>\<open>src/code_element.py\<close>: on the text with the two classes
  \<open>A\<close> and \<open>B\<close> the first construction raises, the handler prints the exception and the
  analysis returns no record.
\<close>

theorem modular_analyze_python_two_classes:
  "class_count two_class_tree = 2
   \<and> two_class_parse two_class_source = Inr two_class_tree
   \<and> analyze_python CodeElement_plain two_class_parse two_class_source = ([], [TypeError])"
  by code_simp

text \<open>
  Claim C2: no fault escapes from the extractor to its caller. \<^verbatim>\<open>analyze_file\<close> has no
  handler of its own: a file with extension \<^verbatim>\<open>.js\<close> or \<^verbatim>\<open>.jsx\<close> reaches the call of a method
  the class does not have, a file that cannot be read raises in \<^verbatim>\<open>_read_file\<close>, and a
  TypeScript text with a signature on its last line raises in the lookahead. Each of the
  three exceptions is the result of the call, whatever the constructor and the parser are.
\<close>

theorem analyze_file_raises:
  "analyze_file mk parse [''app.js'' \<mapsto> ''let x = 1''] ''app.js'' = Inl AttributeError
   \<and> analyze_file mk parse [''app.jsx'' \<mapsto> []] ''app.jsx'' = Inl AttributeError
   \<and> analyze_file mk parse Map.empty ''app.py'' = Inl OSError
   \<and> analyze_file mk parse [''app.ts'' \<mapsto> ''@Component(''] ''app.ts'' = Inl IndexError"
  by (simp add: analyze_file_def read_file_def splitext_def analyze_typescript_def
      enumerate_eq_zip angular_patterns_def re_search_literal_def contains_def)

lemma analyze_file_javascript:
  "fs p = Some t \<Longrightarrow> snd (splitext p) = ''.js'' \<or> snd (splitext p) = ''.jsx'' \<Longrightarrow>
   analyze_file mk parse fs p = Inl AttributeError"
  by (auto simp: analyze_file_def read_file_def)

lemma analyze_file_unreadable: "fs p = None \<Longrightarrow> analyze_file mk parse fs p = Inl OSError"
  by (simp add: analyze_file_def read_file_def)

lemma analyze_file_invalid_python:
  "fs p = Some t \<Longrightarrow> snd (splitext p) = ''.py'' \<Longrightarrow> parse t = Inl e \<Longrightarrow>
   analyze_file mk parse fs p = Inr []"
  by (simp add: analyze_file_def read_file_def analyze_python_def)

text \<open>
  Claim C3: a TypeScript text whose last line matches a signature yields no record for that
  line and no index error. The loop reads \<^verbatim>\<open>lines[i+1]\<close> without a test of the index: on
  a text that is the one line \<^verbatim>\<open>@Component(\<close>, and on a text whose second and last line
  holds \<^verbatim>\<open>@Injectable(\<close>, the call ends with \<^verbatim>\<open>IndexError\<close>
  (in general: \<open>last_line_signature_raises\<close>).
\<close>

theorem signature_on_last_line_raises:
  "analyze_typescript CodeElement_dataclass ''@Component('' = Inl IndexError
   \<and> analyze_typescript CodeElement_plain ''@Component('' = Inl IndexError
   \<and> analyze_typescript CodeElement_dataclass ''let x = 1\<newline>@Injectable({})'' = Inl IndexError"
  by code_simp

text \<open>
  Claim C4: the records that one call of the Python analysis returns all carry the same
  \<open>imports\<close>, the import list of the whole file. This holds with the constructor of either
  copy of the extractor.
\<close>

theorem imports_pairwise_equal:
  assumes "mk = CodeElement_dataclass \<or> mk = CodeElement_plain"
    and "e1 \<in> set (fst (analyze_python mk parse content))"
    and "e2 \<in> set (fst (analyze_python mk parse content))"
  shows "imports e1 = imports e2
         \<and> (\<forall>tree. parse content = Inr tree \<longrightarrow> imports e1 = get_imports tree)"
proof (cases "mk = CodeElement_plain")
  case True
  with assms(2) show ?thesis by (simp add: plain_analyze_python)
next
  case False
  with assms(1) have mk: "mk = CodeElement_dataclass" by simp
  show ?thesis
  proof (cases "parse content")
    case (Inl e)
    with assms(2) show ?thesis by (simp add: analyze_python_def)
  next
    case (Inr tree)
    obtain ex out where r:
      "analyze_python_loop CodeElement_dataclass tree (walk tree) [] = (ex, out)"
      by (cases "analyze_python_loop CodeElement_dataclass tree (walk tree) []")
    with dataclass_loop [of tree "walk tree" "[]"]
    have "ex = None" and all: "\<forall>e \<in> set out. imports e = get_imports tree"
      by simp_all
    with r Inr mk have "fst (analyze_python mk parse content) = out"
      by (simp add: analyze_python_def)
    with assms(2,3) all Inr show ?thesis by simp
  qed
qed

theorem imports_pairwise_equal_witness:
  "\<lparr>name = ''A'', type = ''class'', decorators = [], imports = [''os'', ''re''], methods = [],
     line_number = 3, dependencies = {''x'', ''os''}\<rparr>
     \<in> set (fst (analyze_python CodeElement_dataclass two_class_parse two_class_source))
   \<and> \<lparr>name = ''B'', type = ''class'', decorators = [], imports = [''os'', ''re''], methods = [],
       line_number = 5, dependencies = {''y''}\<rparr>
     \<in> set (fst (analyze_python CodeElement_dataclass two_class_parse two_class_source))
   \<and> imports \<lparr>name = ''A'', type = ''class'', decorators = [], imports = [''os'', ''re''],
       methods = [], line_number = 3, dependencies = {''x'', ''os''}\<rparr>
     = imports \<lparr>name = ''B'', type = ''class'', decorators = [], imports = [''os'', ''re''],
       methods = [], line_number = 5, dependencies = {''y''}\<rparr>"
proof -
  let ?a = "\<lparr>name = ''A'', type = ''class'', decorators = [], imports = [''os'', ''re''],
       methods = [], line_number = 3, dependencies = {''x'', ''os''}\<rparr>"
  let ?b = "\<lparr>name = ''B'', type = ''class'', decorators = [], imports = [''os'', ''re''],
       methods = [], line_number = 5, dependencies = {''y''}\<rparr>"
  have r: "fst (analyze_python CodeElement_dataclass two_class_parse two_class_source) = [?a, ?b]"
    by code_simp
  have a: "?a \<in> set (fst (analyze_python CodeElement_dataclass two_class_parse two_class_source))"
    unfolding r by simp
  have b: "?b \<in> set (fst (analyze_python CodeElement_dataclass two_class_parse two_class_source))"
    unfolding r by simp
  from imports_pairwise_equal [OF _ a b] a b show ?thesis by blast
qed

lemma generator_component_widget:
  assumes "analyze_typescript CodeElement_dataclass content = Inr elements"
    and "i + 1 < length (split_nl content)"
    and "re_search_literal ''@Component('' (split_nl content ! i)"
    and "split_nl content ! (i + 1) = ''export class Widget {''"
  shows "filter (\<lambda>e. line_number e = int i + 1 \<and> type e = ''component'') elements
         = [\<lparr>name = ''Widget'', type = ''component'',
              decorators = [strip (split_nl content ! i)],
              imports = extract_imports content, methods = extract_methods content,
              line_number = int i + 1, dependencies = {}\<rparr>]"
proof -
  let ?lines = "split_nl content"
  let ?P = "\<lambda>e. line_number e = int i + 1 \<and> type e = ''component''"
  let ?row = "typescript_row content ?lines"
  have nm: "\<not> line_matches (last ?lines)"
  proof
    assume "line_matches (last ?lines)"
    from last_line_signature_raises(1) [OF this] assms(1) show False by simp
  qed
  have els: "elements = concat (map ?row (enumerate 0 ?lines))"
    using generator_analyze_typescript_eq [OF nm] assms(1) by simp
  have i: "i < length ?lines" using assms(2) by simp
  have split: "enumerate 0 ?lines
      = enumerate 0 (take i ?lines) @ (i, ?lines ! i) # enumerate (Suc i) (drop (Suc i) ?lines)"
  proof -
    have "?lines = take i ?lines @ ?lines ! i # drop (Suc i) ?lines"
      using i by (simp add: id_take_nth_drop)
    then have "enumerate 0 ?lines
        = enumerate 0 (take i ?lines @ ?lines ! i # drop (Suc i) ?lines)" by simp
    also have "\<dots> = enumerate 0 (take i ?lines)
          @ (i, ?lines ! i) # enumerate (Suc i) (drop (Suc i) ?lines)"
      using i by (simp add: enumerate_append_eq min_absorb2)
    finally show ?thesis .
  qed
  have before: "concat (map (filter ?P \<circ> ?row) (enumerate 0 (take i ?lines))) = []"
    by (auto simp: in_set_enumerate_eq other_row)
  have after: "concat (map (filter ?P \<circ> ?row) (enumerate (Suc i) (drop (Suc i) ?lines))) = []"
    by (auto simp: in_set_enumerate_eq other_row)
  have name: "extract_name ''export class Widget {'' = ''Widget''" by code_simp
  have "filter ?P elements = filter ?P (?row (i, ?lines ! i))"
    unfolding els split by (simp add: filter_concat before after)
  also have "\<dots> = [typescript_record content ?lines i (?lines ! i) ''component'']"
    by (rule component_row [OF assms(3)])
  finally show ?thesis
    using assms(4) by (simp add: typescript_record_def name)
qed

lemma generator_typescript_widget:
  "analyze_typescript CodeElement_dataclass ''@Component(\<newline>export class Widget {'' =
     Inr [\<lparr>name = ''Widget'', type = ''component'', decorators = [''@Component(''],
           imports = [], methods = [], line_number = 1, dependencies = {}\<rparr>]"
  by code_simp

text \<open>
  Claim C5: a line matching \<^verbatim>\<open>@Component(\<close> followed by the line
  \<^verbatim>\<open>export class Widget {\<close> yields one record of kind \<open>component\<close> named \<open>Widget\<close>. The
  copy in \<^verbatim>\<open>scripts/generator.py\<close> returns that record (\<open>generator_component_widget\<close>,
  \<open>generator_typescript_widget\<close>). The
  copy in \<^verbatim>\<open>src/code_analyzer.py\<close> raises \<^verbatim>\<open>TypeError\<close> when it constructs the record.
\<close>

theorem modular_typescript_widget_raises:
  "analyze_typescript CodeElement_plain ''@Component(\<newline>export class Widget {'' = Inl TypeError"
  by code_simp

text \<open>
  Claim C10: the class of \<^verbatim>\<open>src/code_element.py\<close> cannot be constructed with arguments, so
  with it \<^verbatim>\<open>_analyze_python\<close> returns the empty list for every text, and
  \<^verbatim>\<open>_analyze_typescript\<close> raises for every text that has a line matching a signature.
\<close>

theorem modular_extractor_never_builds_a_record:
  "(\<forall>n t ds is ms l deps. CodeElement_plain n t ds is ms l deps = Inl TypeError)
   \<and> (\<forall>parse content. fst (analyze_python CodeElement_plain parse content) = [])
   \<and> (\<forall>content. (\<exists>line \<in> set (split_nl content). line_matches line) \<longrightarrow>
                 (\<exists>e. analyze_typescript CodeElement_plain content = Inl e))"
  using plain_analyze_python plain_analyze_typescript
  by (simp add: CodeElement_plain_def)

theorem modular_extractor_never_builds_a_record_witness:
  "(\<exists>line \<in> set (split_nl ''x\<newline>@Pipe({})\<newline>class P {}''). line_matches line)
   \<and> (\<exists>e. analyze_typescript CodeElement_plain ''x\<newline>@Pipe({})\<newline>class P {}'' = Inl e)
   \<and> fst (analyze_python CodeElement_plain two_class_parse two_class_source) = []"
proof -
  have h: "\<exists>line \<in> set (split_nl ''x\<newline>@Pipe({})\<newline>class P {}''). line_matches line"
    by code_simp
  with modular_extractor_never_builds_a_record show ?thesis by blast
qed

section \<open>Claims about the class splitter\<close>

text \<open>
  Claim C6: when the text of the chosen Python file does not parse, the split reports the
  failure and writes no file: the files are what they were, nothing has been written, and
  the one message shown is the error of the outer handler.
\<close>

theorem parse_failure_writes_nothing:
  assumes "current_file w = Some cf" and "files w cf = Some content"
    and "endswith cf ''.py''" and "parse content = Inl e"
  shows "files (split_classes lower parse w) = files w
         \<and> dialogs (split_classes lower parse w)
             = dialogs w @ [Critical ''Failed to split classes'' e]
         \<and> written (split_classes lower parse w) = written w"
  using assms by (simp add: split_classes_def read_file_def)

theorem parse_failure_writes_nothing_witness:
  "current_file broken_world = Some ''d/m.py''
   \<and> files broken_world ''d/m.py'' = Some ''class''
   \<and> endswith ''d/m.py'' ''.py''
   \<and> two_class_parse ''class'' = Inl SyntaxError
   \<and> files (split_classes lower_ascii two_class_parse broken_world) = files broken_world
   \<and> dialogs (split_classes lower_ascii two_class_parse broken_world)
       = [Critical ''Failed to split classes'' SyntaxError]
   \<and> written (split_classes lower_ascii two_class_parse broken_world) = []"
proof -
  have 1: "current_file broken_world = Some ''d/m.py''" by (simp add: broken_world_def)
  have 2: "files broken_world ''d/m.py'' = Some ''class''" by (simp add: broken_world_def)
  have 3: "endswith ''d/m.py'' ''.py''" by (simp add: endswith_def suffix_def)
  have 4: "two_class_parse ''class'' = Inl SyntaxError"
    by (simp add: two_class_parse_def two_class_source_def)
  have 5: "dialogs broken_world = []" "written broken_world = []"
    by (simp_all add: broken_world_def)
  from parse_failure_writes_nothing
         [where parse = two_class_parse and lower = lower_ascii, OF 1 2 3 4] 1 2 3 4 5
  show ?thesis by simp
qed

text \<open>
  Claim C7: a class whose file cannot be written is reported and the loop goes on. Let \<open>c\<close>
  be a class of the file whose path cannot be opened for writing. Then a warning names
  \<open>c\<close>, and for every class \<open>d\<close> of the file whose text is computed without exception and
  whose path is writable, the write of that text to the path of \<open>d\<close> is done, whatever
  the other classes do. The files at the end are the files at the start with the writes
  laid over them, a later write to a path over an earlier one; so the file of \<open>d\<close> holds the
  text of \<open>d\<close> when no later class has the same path. The split ends with its closing
  message.
\<close>

theorem failed_write_does_not_stop_the_loop:
  assumes "current_file w = Some cf" and "files w cf = Some content"
    and "endswith cf ''.py''" and "parse content = Inr tree"
    and "c \<in> set (filter is_ClassDef (walk tree))"
    and "new_file_path lower cf c \<in> unwritable w"
  shows "(\<exists>e. Warning (class_name c) e \<in> set (dialogs (split_classes lower parse w)))
         \<and> (\<forall>d \<in> set (filter is_ClassDef (walk tree)). \<forall>t.
               new_content parse content d = Inr t \<and> new_file_path lower cf d \<notin> unwritable w
               \<longrightarrow> (new_file_path lower cf d, t) \<in> set (written (split_classes lower parse w)))
         \<and> (\<forall>xs d ys t.
               filter is_ClassDef (walk tree) = xs @ d # ys
               \<and> new_content parse content d = Inr t
               \<and> new_file_path lower cf d \<notin> unwritable w
               \<and> (\<forall>y \<in> set ys. new_file_path lower cf y \<noteq> new_file_path lower cf d)
               \<longrightarrow> files (split_classes lower parse w) (new_file_path lower cf d) = Some t)
         \<and> files (split_classes lower parse w)
             = files w ++ map_of (rev (drop (length (written w))
                                         (written (split_classes lower parse w))))
         \<and> last (dialogs (split_classes lower parse w)) = Information"
proof -
  let ?cs = "filter is_ClassDef (walk tree)"
  let ?w' = "split_loop lower parse cf content ?cs w"
  have sc: "split_classes lower parse w = ?w'\<lparr>dialogs := dialogs ?w' @ [Information]\<rparr>"
    by (rule split_classes_python [where parse = parse, OF assms(1-4)])
  from split_loop_warns [OF assms(5), of parse content _ lower cf w] assms(6)
  obtain e where "Warning (class_name c) e \<in> set (dialogs ?w')" by blast
  then have 1: "\<exists>e. Warning (class_name c) e \<in> set (dialogs (split_classes lower parse w))"
    unfolding sc by auto
  have 2: "(new_file_path lower cf d, t) \<in> set (written (split_classes lower parse w))"
    if "d \<in> set ?cs" "new_content parse content d = Inr t"
       "new_file_path lower cf d \<notin> unwritable w" for d t
  proof -
    from that(1) obtain xs ys where cs: "?cs = xs @ d # ys" by (auto simp: in_set_conv_decomp)
    from split_loop_writes(1) [OF that(2,3), of xs ys] show ?thesis
      unfolding sc cs by simp
  qed
  have 3: "files (split_classes lower parse w) (new_file_path lower cf d) = Some t"
    if "?cs = xs @ d # ys" "new_content parse content d = Inr t"
       "new_file_path lower cf d \<notin> unwritable w"
       "\<forall>y \<in> set ys. new_file_path lower cf y \<noteq> new_file_path lower cf d" for xs d ys t
    using split_loop_writes(2) [OF that(2,3,4), of xs] unfolding sc that(1) by simp
  have 4: "files (split_classes lower parse w)
             = files w ++ map_of (rev (drop (length (written w))
                                         (written (split_classes lower parse w))))"
    unfolding sc using split_loop_log [of lower parse cf content ?cs w] by simp
  have 5: "last (dialogs (split_classes lower parse w)) = Information"
    unfolding sc by simp
  from 1 2 3 4 5 show ?thesis by blast
qed

theorem failed_write_does_not_stop_the_loop_witness:
  "class_A \<in> set (filter is_ClassDef (walk two_class_tree))
   \<and> class_B \<in> set (filter is_ClassDef (walk two_class_tree))
   \<and> new_file_path lower_ascii ''d/m.py'' class_A \<in> unwritable two_class_world
   \<and> (\<exists>e. Warning ''A'' e
            \<in> set (dialogs (split_classes lower_ascii two_class_parse two_class_world)))
   \<and> (''d/m_b.py'', ''\<newline>class B:\<newline>  y = 1'')
       \<in> set (written (split_classes lower_ascii two_class_parse two_class_world))
   \<and> files (split_classes lower_ascii two_class_parse two_class_world) ''d/m_b.py''
       = Some ''\<newline>class B:\<newline>  y = 1''
   \<and> last (dialogs (split_classes lower_ascii two_class_parse two_class_world)) = Information"
proof -
  have 1: "current_file two_class_world = Some ''d/m.py''" by (simp add: two_class_world_def)
  have 2: "files two_class_world ''d/m.py'' = Some two_class_source"
    by (simp add: two_class_world_def)
  have 3: "endswith ''d/m.py'' ''.py''" by (simp add: endswith_def suffix_def)
  have 5: "class_A \<in> set (filter is_ClassDef (walk two_class_tree))"
    unfolding two_class_classes_B by simp
  have inB: "class_B \<in> set (filter is_ClassDef (walk two_class_tree))"
    unfolding two_class_classes_B by simp
  have 6: "new_file_path lower_ascii ''d/m.py'' class_A \<in> unwritable two_class_world"
    by code_simp
  have 8: "new_content two_class_parse two_class_source class_B = Inr ''\<newline>class B:\<newline>  y = 1''"
    by code_simp
  have pb: "new_file_path lower_ascii ''d/m.py'' class_B = ''d/m_b.py''" by code_simp
  have 9: "new_file_path lower_ascii ''d/m.py'' class_B \<notin> unwritable two_class_world"
    by code_simp
  have na: "class_name class_A = ''A''" by (simp add: class_A_def)
  note t = failed_write_does_not_stop_the_loop
             [where parse = two_class_parse and lower = lower_ascii,
              OF 1 2 3 two_class_parse_source 5 6]
  note t1 = t [THEN conjunct1]
  note t2 = t [THEN conjunct2, THEN conjunct1]
  note t3 = t [THEN conjunct2, THEN conjunct2, THEN conjunct1]
  note t5 = t [THEN conjunct2, THEN conjunct2, THEN conjunct2, THEN conjunct2]
  from t1 have a: "\<exists>e. Warning ''A'' e
            \<in> set (dialogs (split_classes lower_ascii two_class_parse two_class_world))"
    by (simp only: na)
  from t2 [rule_format, of class_B "''\<newline>class B:\<newline>  y = 1''"] inB 8 9
  have b: "(''d/m_b.py'', ''\<newline>class B:\<newline>  y = 1'')
       \<in> set (written (split_classes lower_ascii two_class_parse two_class_world))"
    by (simp only: pb simp_thms)
  have later: "\<forall>y \<in> set []. new_file_path lower_ascii ''d/m.py'' y
                 \<noteq> new_file_path lower_ascii ''d/m.py'' class_B" by simp
  from t3 [rule_format, of "[class_A]" class_B "[]" "''\<newline>class B:\<newline>  y = 1''"]
       two_class_classes_B 8 9 later
  have c: "files (split_classes lower_ascii two_class_parse two_class_world) ''d/m_b.py''
       = Some ''\<newline>class B:\<newline>  y = 1''"
    by (simp only: pb simp_thms)
  note d = t5
  from 5 inB 6 a b c d show ?thesis by (simp only: simp_thms)
qed

text \<open>
  Claim C8, as stated: the relevant imports of a class are the import statements with an
  imported name that occurs in the class text, in file order. In the file below the
  function \<open>f\<close> imports \<open>os\<close> on line 2 and the module imports \<open>re\<close> on line 3; the class
  uses both, and the list returned has \<open>import re\<close> before \<open>import os\<close>.
\<close>

theorem nested_import_not_in_file_order:
  "nested_parse nested_source = Inr nested_tree
   \<and> segments_ok nested_source nested_tree
   \<and> class_C \<in> set (walk nested_tree)
   \<and> fst (get_class_imports nested_parse nested_source class_C)
       = [Some ''import re'', Some ''import os'']
   \<and> file_order_imports nested_source nested_tree class_C = [''import os'', ''import re'']
   \<and> fst (get_class_imports nested_parse nested_source class_C)
       \<noteq> map Some (file_order_imports nested_source nested_tree class_C)"
  by code_simp

text \<open>
  Claim C8, amended: for a class of a parsed file, the list returned holds the source
  segments of exactly the import statements with an imported name that occurs in the class
  text (the name before \<^verbatim>\<open>as\<close>; not the module of a \<^verbatim>\<open>from\<close> import), in the order in which
  \<^verbatim>\<open>ast.walk\<close> yields the nodes of the tree: the statements that are items of the module
  body itself come first, in the order of the body, and after them come the statements
  found in the walk of the children of those items (the bodies of functions, classes,
  \<^verbatim>\<open>try\<close> and \<^verbatim>\<open>if\<close> statements and so on).
\<close>

theorem relevant_imports_in_walk_order:
  assumes "parse source = Inr tree" and "segments_ok source tree"
    and "c \<in> set (walk tree)" and "is_ClassDef c"
  shows "get_class_imports parse source c
           = (map (\<lambda>n. Some (segment source n))
                (filter (relevant (segment source c)) (walk tree)), [])
         \<and> (\<forall>s. Some s \<in> set (fst (get_class_imports parse source c)) \<longleftrightarrow>
                  (\<exists>n \<in> set (walk tree). relevant (segment source c) n \<and> segment source n = s))
         \<and> (\<forall>body. tree = Module body \<longrightarrow>
               fst (get_class_imports parse source c)
                 = map (\<lambda>n. Some (segment source n)) (filter (relevant (segment source c)) body)
                   @ map (\<lambda>n. Some (segment source n))
                       (filter (relevant (segment source c))
                          (walk_queue (concat (map iter_child_nodes body)))))"
proof -
  have g: "get_class_imports parse source c
           = (map (\<lambda>n. Some (segment source n))
                (filter (relevant (segment source c)) (walk tree)), [])"
    by (rule get_class_imports_ok [of parse source tree c, OF assms])
  show ?thesis
    unfolding g by (auto simp: walk_Module)
qed

theorem relevant_imports_in_walk_order_witness:
  "alias_parse alias_source = Inr alias_tree
   \<and> segments_ok alias_source alias_tree
   \<and> class_Q \<in> set (walk alias_tree) \<and> is_ClassDef class_Q
   \<and> segment alias_source class_Q = ''class Q:\<newline>  x = po, re, sub''
   \<and> sublist ''po'' ''class Q:\<newline>  x = po, re, sub''
   \<and> sublist ''re'' ''class Q:\<newline>  x = po, re, sub''
   \<and> get_class_imports alias_parse alias_source class_Q = ([Some ''from io import sub''], [])"
proof -
  have 3: "class_Q \<in> set (walk alias_tree)" by code_simp
  have 4: "is_ClassDef class_Q" by (simp add: class_Q_def)
  have 5: "segment alias_source class_Q = ''class Q:\<newline>  x = po, re, sub''" by code_simp
  have 6: "map (\<lambda>n. Some (segment alias_source n))
             (filter (relevant (segment alias_source class_Q)) (walk alias_tree))
           = [Some ''from io import sub'']" by code_simp
  have 7: "sublist ''po'' ''class Q:\<newline>  x = po, re, sub''"
          "sublist ''re'' ''class Q:\<newline>  x = po, re, sub''"
    by code_simp+
  from relevant_imports_in_walk_order
         [where parse = alias_parse, OF alias_parse_source alias_segments_ok 3 4, THEN conjunct1]
  have "get_class_imports alias_parse alias_source class_Q = ([Some ''from io import sub''], [])"
    by (simp only: 6)
  with alias_parse_source alias_segments_ok 3 4 5 7 show ?thesis by (simp only: simp_thms)
qed

text \<open>
  Claim C9, as stated: for every class the output content is the relevant import statements
  in file order, an empty line and the source segment of the class. Two files tell
  otherwise. For the file with the nested import the content written starts with
  \<open>import re\<close>, and the content built from the imports in file order starts with
  \<open>import os\<close>. For the file with the classes \<open>M\<close> and \<open>m\<close> both classes have the path
  \<^verbatim>\<open>f_m.py\<close>: no warning is shown and at the end the file holds the text of \<open>m\<close>, not the one
  of \<open>M\<close>.
\<close>

theorem split_output_not_as_stated:
  "current_file nested_world = Some ''m.py''
   \<and> files nested_world ''m.py'' = Some nested_source
   \<and> nested_parse nested_source = Inr nested_tree
   \<and> new_file_path lower_ascii ''m.py'' class_C = ''m_c.py''
   \<and> files (split_classes lower_ascii nested_parse nested_world) ''m_c.py''
       = Some ''import re\<newline>import os\<newline>\<newline>class C:\<newline> x = os, re''
   \<and> file_order_content nested_source nested_tree class_C
       = ''import os\<newline>import re\<newline>\<newline>class C:\<newline> x = os, re''
   \<and> files (split_classes lower_ascii nested_parse nested_world) ''m_c.py''
       \<noteq> Some (file_order_content nested_source nested_tree class_C)
   \<and> current_file same_path_world = Some ''f.py''
   \<and> files same_path_world ''f.py'' = Some same_path_source
   \<and> same_path_parse same_path_source = Inr same_path_tree
   \<and> class_upper_M \<in> set (walk same_path_tree)
   \<and> new_file_path lower_ascii ''f.py'' class_upper_M = ''f_m.py''
   \<and> file_order_content same_path_source same_path_tree class_upper_M = ''\<newline>class M:\<newline> a = 1''
   \<and> files (split_classes lower_ascii same_path_parse same_path_world) ''f_m.py''
       = Some ''\<newline>class m:\<newline> b = 2''
   \<and> dialogs (split_classes lower_ascii same_path_parse same_path_world) = [Information]
   \<and> files (split_classes lower_ascii same_path_parse same_path_world) ''f_m.py''
       \<noteq> Some (file_order_content same_path_source same_path_tree class_upper_M)"
  by code_simp

text \<open>
  Claim C9, amended: for every class \<open>d\<close> of a parsed file whose path is writable, the
  content written for \<open>d\<close> is the relevant import statements in the order of \<^verbatim>\<open>ast.walk\<close>
  (the list of claim C8), each followed by a line break, then an empty line, then the source
  segment of the class; dropping the import block and the empty line from it leaves the
  source segment of the class. The files at the end are the files at the start with the
  writes laid over them, a later write to a path over an earlier one: the file of \<open>d\<close>
  holds the content written for \<open>d\<close> when no later class has the same path.
\<close>

theorem split_output_layout:
  assumes "current_file w = Some cf" and "files w cf = Some content"
    and "endswith cf ''.py''" and "parse content = Inr tree"
    and "segments_ok content tree"
    and "d \<in> set (filter is_ClassDef (walk tree))"
    and "new_file_path lower cf d \<notin> unwritable w"
  shows "(new_file_path lower cf d,
          concat (map (\<lambda>s. s @ ''\<newline>'')
                   (map (segment content) (filter (relevant (segment content d)) (walk tree))))
          @ ''\<newline>'' @ segment content d)
           \<in> set (written (split_classes lower parse w))
         \<and> fst (get_class_imports parse content d)
             = map Some (map (segment content) (filter (relevant (segment content d)) (walk tree)))
         \<and> get_source_segment content d = Inr (Some (segment content d))
         \<and> drop (length (concat (map (\<lambda>s. s @ ''\<newline>'')
                     (map (segment content)
                        (filter (relevant (segment content d)) (walk tree))))) + 1)
              (concat (map (\<lambda>s. s @ ''\<newline>'')
                 (map (segment content) (filter (relevant (segment content d)) (walk tree))))
               @ ''\<newline>'' @ segment content d)
             = segment content d
         \<and> files (split_classes lower parse w)
             = files w ++ map_of (rev (drop (length (written w))
                                         (written (split_classes lower parse w))))
         \<and> (\<forall>xs ys. filter is_ClassDef (walk tree) = xs @ d # ys
               \<and> (\<forall>y \<in> set ys. new_file_path lower cf y \<noteq> new_file_path lower cf d)
               \<longrightarrow> files (split_classes lower parse w) (new_file_path lower cf d)
                   = Some (concat (map (\<lambda>s. s @ ''\<newline>'')
                             (map (segment content)
                                (filter (relevant (segment content d)) (walk tree))))
                           @ ''\<newline>'' @ segment content d))"
proof -
  let ?cs = "filter is_ClassDef (walk tree)"
  let ?w' = "split_loop lower parse cf content ?cs w"
  let ?block = "concat (map (\<lambda>s. s @ ''\<newline>'')
                  (map (segment content) (filter (relevant (segment content d)) (walk tree))))"
  have sc: "split_classes lower parse w = ?w'\<lparr>dialogs := dialogs ?w' @ [Information]\<rparr>"
    by (rule split_classes_python [where parse = parse, OF assms(1-4)])
  from assms(6) have d: "d \<in> set (walk tree)" "is_ClassDef d" by simp_all
  have nc: "new_content parse content d = Inr (?block @ ''\<newline>'' @ segment content d)"
    by (rule new_content_ok [of parse content tree d, OF assms(4,5) d])
  from assms(6) obtain xs0 ys0 where cs: "?cs = xs0 @ d # ys0"
    by (auto simp: in_set_conv_decomp)
  from split_loop_writes(1) [OF nc assms(7), of xs0 ys0]
  have 1: "(new_file_path lower cf d, ?block @ ''\<newline>'' @ segment content d)
           \<in> set (written (split_classes lower parse w))"
    unfolding sc cs by simp
  have 2: "fst (get_class_imports parse content d)
           = map Some (map (segment content) (filter (relevant (segment content d)) (walk tree)))"
    unfolding get_class_imports_ok [of parse content tree d, OF assms(4,5) d] by simp
  have 3: "get_source_segment content d = Inr (Some (segment content d))"
    using assms(5) d by (simp add: segments_ok_def has_segment_eq)
  have 4: "drop (length ?block + 1) (?block @ ''\<newline>'' @ segment content d) = segment content d"
    by simp
  have 5: "files (split_classes lower parse w)
             = files w ++ map_of (rev (drop (length (written w))
                                         (written (split_classes lower parse w))))"
    unfolding sc using split_loop_log [of lower parse cf content ?cs w] by simp
  have 6: "files (split_classes lower parse w) (new_file_path lower cf d)
             = Some (?block @ ''\<newline>'' @ segment content d)"
    if "?cs = xs @ d # ys"
       "\<forall>y \<in> set ys. new_file_path lower cf y \<noteq> new_file_path lower cf d" for xs ys
    using split_loop_writes(2) [OF nc assms(7) that(2), of xs] unfolding sc that(1) by simp
  from 1 2 3 4 5 6 show ?thesis by (simp only: simp_thms) blast
qed

theorem split_output_layout_witness:
  "class_Q \<in> set (filter is_ClassDef (walk alias_tree))
   \<and> new_file_path lower_ascii ''m.py'' class_Q \<notin> unwritable alias_world
   \<and> (''m_q.py'', ''from io import sub\<newline>\<newline>class Q:\<newline>  x = po, re, sub'')
       \<in> set (written (split_classes lower_ascii alias_parse alias_world))
   \<and> fst (get_class_imports alias_parse alias_source class_Q) = [Some ''from io import sub'']
   \<and> get_source_segment alias_source class_Q = Inr (Some ''class Q:\<newline>  x = po, re, sub'')
   \<and> drop 20 ''from io import sub\<newline>\<newline>class Q:\<newline>  x = po, re, sub''
       = ''class Q:\<newline>  x = po, re, sub''
   \<and> files (split_classes lower_ascii alias_parse alias_world) ''m_q.py''
       = Some ''from io import sub\<newline>\<newline>class Q:\<newline>  x = po, re, sub''"
proof -
  have 1: "current_file alias_world = Some ''m.py''" by (simp add: alias_world_def)
  have 2: "files alias_world ''m.py'' = Some alias_source" by (simp add: alias_world_def)
  have 3: "endswith ''m.py'' ''.py''" by (simp add: endswith_def suffix_def)
  have 6: "class_Q \<in> set (filter is_ClassDef (walk alias_tree))"
    unfolding alias_classes by simp
  have 7: "new_file_path lower_ascii ''m.py'' class_Q \<notin> unwritable alias_world" by code_simp
  have p: "new_file_path lower_ascii ''m.py'' class_Q = ''m_q.py''" by code_simp
  have sg: "segment alias_source class_Q = ''class Q:\<newline>  x = po, re, sub''" by code_simp
  have b: "map (segment alias_source)
             (filter (relevant ''class Q:\<newline>  x = po, re, sub'') (walk alias_tree))
           = [''from io import sub'']"
    by code_simp
  have cs: "filter is_ClassDef (walk alias_tree) = [] @ class_Q # []"
    unfolding alias_classes by simp
  note t = split_output_layout
             [where parse = alias_parse and lower = lower_ascii,
              OF 1 2 3 alias_parse_source alias_segments_ok 6 7, unfolded p sg b]
  note t1 = t [THEN conjunct1]
  note t2 = t [THEN conjunct2, THEN conjunct1]
  note t3 = t [THEN conjunct2, THEN conjunct2, THEN conjunct1]
  note t4 = t [THEN conjunct2, THEN conjunct2, THEN conjunct2, THEN conjunct1]
  note t6 = t [THEN conjunct2, THEN conjunct2, THEN conjunct2, THEN conjunct2, THEN conjunct2]
  from t1 have a1: "(''m_q.py'', ''from io import sub\<newline>\<newline>class Q:\<newline>  x = po, re, sub'')
       \<in> set (written (split_classes lower_ascii alias_parse alias_world))" by simp
  from t2 have a2: "fst (get_class_imports alias_parse alias_source class_Q)
                    = [Some ''from io import sub'']" by simp
  from t4 have a4: "drop 20 ''from io import sub\<newline>\<newline>class Q:\<newline>  x = po, re, sub''
       = ''class Q:\<newline>  x = po, re, sub''" by simp
  from t6 [rule_format, of "[]" "[]"] cs
  have a6: "files (split_classes lower_ascii alias_parse alias_world) ''m_q.py''
       = Some ''from io import sub\<newline>\<newline>class Q:\<newline>  x = po, re, sub''" by simp
  from 6 7 a1 a2 t3 a4 a6 show ?thesis by (simp only: simp_thms)
qed

end
